theory Spec2Isabelle
  imports Complex_Main "HOL-Library.Multiset"
begin

section \<open>Data model of \<^verbatim>\<open>src/lib/github.ts\<close>\<close>

text \<open>
  Errors are values. \<open>Error\<close> is a JavaScript \<^verbatim>\<open>Error\<close> with its message,
  \<open>RequestError\<close> is what the REST or GraphQL client rejects with (status and message).
\<close>

datatype error = Error string | RequestError nat string

text \<open>
  The argument of \<^verbatim>\<open>getGitHubStats(accessToken: string | undefined | null)\<close>.
\<close>

datatype access_token = Undefined | Null | Str string

text \<open>
  A JavaScript number as far as the program computes with one that is not a count:
  a finite value (idealised as a real, rounding left out), the two infinities and NaN.
  Counts that come from the remote API (\<^verbatim>\<open>Int!\<close> fields of the GraphQL schema) are \<open>nat\<close>.
\<close>

datatype jsnum = Number real | Infinity | NegInfinity | NaN

text \<open>The \<^verbatim>\<open>data\<close> of \<^verbatim>\<open>octokit.users.getAuthenticated()\<close>, the two fields read.\<close>

record auth_user =
  login :: string
  avatar_url :: string

text \<open>
  A node of the listing query. \<^verbatim>\<open>defaultBranchRef\<close>, its \<^verbatim>\<open>target\<close> and the
  \<^verbatim>\<open>history\<close> of the target (present only on a commit) may each be missing; the
  code reads them through \<^verbatim>\<open>?.\<close>.
\<close>

datatype commit_history = History (totalCount: nat)

datatype git_object = GitObject (history: "commit_history option")

datatype branch_ref = Ref (target: "git_object option")

record repo_node =
  nameWithOwner :: string
  node_isPrivate :: bool
  node_url :: string
  node_description :: "string option"
  primaryLanguage :: "string option"
  stargazerCount :: nat
  defaultBranchRef :: "branch_ref option"

record repositories_page =
  nodes :: "repo_node list"
  hasNextPage :: bool
  endCursor :: "string option"

text \<open>
  The \<^verbatim>\<open>contributionsCollection\<close> of the contributions query, with the fields the
  code reads (\<^verbatim>\<open>commitContributionsByRepository\<close> and the capped
  \<^verbatim>\<open>repositories\<close> of that query are requested and never read).
\<close>

record contribution_day =
  contributionCount :: nat
  date :: string
  weekday :: nat

record contributions_collection =
  totalCommitContributions :: nat
  totalIssueContributions :: nat
  totalPullRequestContributions :: nat
  totalPullRequestReviewContributions :: nat
  weeks :: "contribution_day list list"

text \<open>\<^verbatim>\<open>interface RepoStats\<close>.\<close>

record RepoStats =
  name :: string
  commits :: nat
  stars :: nat
  url :: string
  description :: "string option"
  language :: "string option"
  contributions :: nat
  isPrivate :: bool

text \<open>
  The object \<^verbatim>\<open>result\<close>: \<open>contributionsByDay\<close> holds the \<^verbatim>\<open>{day, count}\<close>
  objects, \<open>contributionsByType\<close> the \<^verbatim>\<open>{type, count}\<close> objects and \<open>languages\<close> the
  \<^verbatim>\<open>{name, percentage}\<close> objects, each as a pair.
\<close>

record report =
  repos :: "RepoStats list"
  totalCommits :: nat
  totalComments :: nat
  totalReviews :: nat
  totalRepos :: nat
  activeDays :: nat
  contributionsByDay :: "(string \<times> nat) list"
  contributionsByType :: "(string \<times> nat) list"
  languages :: "(string \<times> jsnum) list"
  user :: auth_user

section \<open>The environment: clock, timers, remote API\<close>

text \<open>
  Everything outside the module is a parameter. The world \<open>'w\<close> is whatever decides
  the answers of the remote API and the reading of the clock; a remote call returns
  its answer and the world after it. \<open>toLocaleWeekday\<close> is
  \<^verbatim>\<open>new Date(d).toLocaleDateString("en-US", {weekday: "long"})\<close>.
\<close>

record 'w env =
  Date_now :: "'w \<Rightarrow> int"
  setTimeout :: "int \<Rightarrow> 'w \<Rightarrow> 'w"
  users_getAuthenticated :: "string \<Rightarrow> 'w \<Rightarrow> (error + auth_user) \<times> 'w"
  graphql_contributions :: "string \<Rightarrow> string \<Rightarrow> 'w \<Rightarrow> (error + contributions_collection) \<times> 'w"
  graphql_repositories ::
    "string \<Rightarrow> string \<Rightarrow> string option \<Rightarrow> 'w \<Rightarrow> (error + repositories_page) \<times> 'w"
  toLocaleWeekday :: "string \<Rightarrow> string"

text \<open>
  What a call does to the outside is recorded in a trace (a ghost field of the state):
  cache reads and writes, timers, every remote call with its answer, and the
  \<^verbatim>\<open>console.error\<close> of the catch block.
\<close>

datatype event =
    CacheGet string
  | CacheSet string
  | Timer int
  | GetAuthenticated "error + auth_user"
  | ContributionsQuery string "error + contributions_collection"
  | RepositoriesQuery string "string option" "error + repositories_page"
  | ConsoleError error

section \<open>The cache\<close>

text \<open>
  Modelled from the spec: the class \<^verbatim>\<open>LRUCache\<close> of the package \<^verbatim>\<open>lru-cache\<close> is
  imported, its code is not part of the sources. The spec's contract (4.2):
  \<^verbatim>\<open>get(key)\<close> returns the value or absent, \<^verbatim>\<open>set(key, value)\<close> stores it; at most
  100 entries, and inserting beyond capacity evicts the least recently used one; each
  entry expires 5 minutes after insertion regardless of access (no sliding expiry);
  \<^verbatim>\<open>get\<close> on an expired or absent key returns absent.
  The cache is the list of its entries (key, value, time of insertion), the most
  recently used first.
\<close>

type_synonym 'v lru = "(string \<times> 'v \<times> int) list"

definition cache_max :: nat where
  "cache_max = 100"

definition cache_ttl :: int where
  "cache_ttl = 1000 * 60 * 5"

definition cache_get :: "int \<Rightarrow> string \<Rightarrow> 'v lru \<Rightarrow> 'v option \<times> 'v lru" where
  "cache_get now k c =
     (case map_of c k of
        None \<Rightarrow> (None, c)
      | Some (v, t) \<Rightarrow>
          if now < t + cache_ttl
          then (Some v, (k, v, t) # filter (\<lambda>e. fst e \<noteq> k) c)
          else (None, c))"

definition cache_set :: "int \<Rightarrow> string \<Rightarrow> 'v \<Rightarrow> 'v lru \<Rightarrow> 'v lru" where
  "cache_set now k v c = (k, v, now) # take (cache_max - 1) (filter (\<lambda>e. fst e \<noteq> k) c)"

section \<open>The state of the module\<close>

text \<open>
  \<^verbatim>\<open>cache\<close> and \<^verbatim>\<open>rateLimiter.lastCall\<close> are the module's two variables
  (\<^verbatim>\<open>rateLimiter.minInterval\<close> is never assigned).
\<close>

record 'w state =
  cache :: "report lru"
  lastCall :: int
  world :: 'w
  trace :: "event list"

definition minInterval :: int where
  "minInterval = 1000"

text \<open>The events a run added to the trace.\<close>

definition new_events :: "'w state \<Rightarrow> 'w state \<Rightarrow> event list" where
  "new_events s s' = drop (length (trace s)) (trace s')"

section \<open>\<^verbatim>\<open>rateLimit\<close>\<close>

definition rateLimit :: "'w env \<Rightarrow> 'w state \<Rightarrow> 'w state" where
  "rateLimit e s =
     (let now = Date_now e (world s);
          timeSinceLastCall = now - lastCall s;
          s1 = (if timeSinceLastCall < minInterval
                then s\<lparr>world := setTimeout e (minInterval - timeSinceLastCall) (world s),
                       trace := trace s @ [Timer (minInterval - timeSinceLastCall)]\<rparr>
                else s)
      in s1\<lparr>lastCall := Date_now e (world s1)\<rparr>)"

section \<open>Remote calls\<close>

definition getAuthenticated :: "'w env \<Rightarrow> string \<Rightarrow> 'w state \<Rightarrow> (error + auth_user) \<times> 'w state" where
  "getAuthenticated e tok s =
     (case users_getAuthenticated e tok (world s) of
        (res, w) \<Rightarrow> (res, s\<lparr>world := w, trace := trace s @ [GetAuthenticated res]\<rparr>))"

definition contributionsQuery ::
  "'w env \<Rightarrow> string \<Rightarrow> string \<Rightarrow> 'w state \<Rightarrow> (error + contributions_collection) \<times> 'w state" where
  "contributionsQuery e tok lg s =
     (case graphql_contributions e tok lg (world s) of
        (res, w) \<Rightarrow> (res, s\<lparr>world := w, trace := trace s @ [ContributionsQuery lg res]\<rparr>))"

definition repositoriesQuery ::
  "'w env \<Rightarrow> string \<Rightarrow> string \<Rightarrow> string option \<Rightarrow> 'w state \<Rightarrow> (error + repositories_page) \<times> 'w state" where
  "repositoriesQuery e tok lg cursor s =
     (case graphql_repositories e tok lg cursor (world s) of
        (res, w) \<Rightarrow> (res, s\<lparr>world := w, trace := trace s @ [RepositoriesQuery lg cursor res]\<rparr>))"

section \<open>\<^verbatim>\<open>getAllRepositories\<close>\<close>

text \<open>
  The \<^verbatim>\<open>while (hasNextPage)\<close> loop, entered with \<^verbatim>\<open>hasNextPage = true\<close>. It runs for
  as long as the remote API announces a next page, so the function is partial: \<open>None\<close>
  is a loop that never ends. A rejected query leaves the loop with the error.
\<close>

partial_function (option) repositoriesLoop ::
  "'w env \<Rightarrow> string \<Rightarrow> string \<Rightarrow> repo_node list \<Rightarrow> string option \<Rightarrow> 'w state
     \<Rightarrow> ((error + repo_node list) \<times> 'w state) option" where
  "repositoriesLoop e tok lg repositories cursor s =
     (case repositoriesQuery e tok lg cursor s of
        (Inl err, s1) \<Rightarrow> Some (Inl err, s1)
      | (Inr page, s1) \<Rightarrow>
          if hasNextPage page
          then repositoriesLoop e tok lg (repositories @ nodes page) (endCursor page) s1
          else Some (Inr (repositories @ nodes page), s1))"

definition getAllRepositories ::
  "'w env \<Rightarrow> string \<Rightarrow> string \<Rightarrow> 'w state \<Rightarrow> ((error + repo_node list) \<times> 'w state) option" where
  "getAllRepositories e tok lg s = repositoriesLoop e tok lg [] None s"

section \<open>The aggregation\<close>

text \<open>\<^verbatim>\<open>x || 0\<close> for a property that holds a count or is missing.\<close>

definition orZero :: "nat option \<Rightarrow> nat" where
  "orZero x = (case x of None \<Rightarrow> 0 | Some n \<Rightarrow> if n = 0 then 0 else n)"

subsection \<open>Daily contributions\<close>

text \<open>
  The body of the inner \<^verbatim>\<open>forEach\<close>. \<^verbatim>\<open>dailyContributions\<close> is the object used as a
  dictionary, \<^verbatim>\<open>activeDaysSet\<close> the \<^verbatim>\<open>Set\<close>, as the list of its distinct members.
\<close>

definition processDay ::
  "'w env \<Rightarrow> contribution_day \<Rightarrow> (string \<rightharpoonup> nat) \<times> string list \<Rightarrow> (string \<rightharpoonup> nat) \<times> string list" where
  "processDay e day acc =
     (case acc of (dailyContributions, activeDaysSet) \<Rightarrow>
        if contributionCount day > 0
        then (let dayKey = toLocaleWeekday e (date day)
              in (dailyContributions(dayKey \<mapsto> orZero (dailyContributions dayKey) + contributionCount day),
                  List.insert (date day) activeDaysSet))
        else (dailyContributions, activeDaysSet))"

definition processCalendar :: "'w env \<Rightarrow> contribution_day list list \<Rightarrow> (string \<rightharpoonup> nat) \<times> string list" where
  "processCalendar e wks = fold (\<lambda>week acc. fold (processDay e) week acc) wks (Map.empty, [])"

definition daysOrder :: "string list" where
  "daysOrder = [''Monday'', ''Tuesday'', ''Wednesday'', ''Thursday'', ''Friday'', ''Saturday'', ''Sunday'']"

definition contributionsByDayOf :: "(string \<rightharpoonup> nat) \<Rightarrow> (string \<times> nat) list" where
  "contributionsByDayOf dailyContributions = map (\<lambda>day. (day, orZero (dailyContributions day))) daysOrder"

subsection \<open>Repository records\<close>

text \<open>
  The callback of \<^verbatim>\<open>allRepositories.map\<close>.
  \<^verbatim>\<open>repo.defaultBranchRef?.target?.history?.totalCount || 0\<close> is the chain of binds,
  \<^verbatim>\<open>repo.primaryLanguage?.name || null\<close> turns a missing and an empty name into null.
\<close>

definition historyTotalCount :: "repo_node \<Rightarrow> nat option" where
  "historyTotalCount repo =
     map_option totalCount (Option.bind (Option.bind (defaultBranchRef repo) target) history)"

definition toRepoStats :: "repo_node \<Rightarrow> RepoStats" where
  "toRepoStats repo =
     \<lparr>name = nameWithOwner repo,
      commits = orZero (historyTotalCount repo),
      stars = stargazerCount repo,
      url = node_url repo,
      description = node_description repo,
      language = (case primaryLanguage repo of
                    None \<Rightarrow> None
                  | Some l \<Rightarrow> if l = [] then None else Some l),
      contributions = orZero (historyTotalCount repo),
      isPrivate = node_isPrivate repo\<rparr>"

subsection \<open>Sorting\<close>

text \<open>
  \<^verbatim>\<open>Array.prototype.sort\<close> with a comparator is stable. Both comparators of this
  module order by one number, descending, so every stable sort returns the same array:
  the one of the insertion sort below, where \<open>after a b\<close> says that the comparator is
  positive at \<open>(a, b)\<close>.
\<close>

fun insort_by :: "('a \<Rightarrow> 'a \<Rightarrow> bool) \<Rightarrow> 'a \<Rightarrow> 'a list \<Rightarrow> 'a list" where
  "insort_by after x [] = [x]"
| "insort_by after x (y # ys) = (if after x y then y # insort_by after x ys else x # y # ys)"

definition js_sort :: "('a \<Rightarrow> 'a \<Rightarrow> bool) \<Rightarrow> 'a list \<Rightarrow> 'a list" where
  "js_sort after xs = foldr (insort_by after) xs []"

text \<open>\<^verbatim>\<open>(a, b) => b.commits - a.commits\<close> is positive.\<close>

definition commitsAfter :: "RepoStats \<Rightarrow> RepoStats \<Rightarrow> bool" where
  "commitsAfter a b = (int (commits b) - int (commits a) > 0)"

subsection \<open>Languages\<close>

text \<open>
  \<^verbatim>\<open>languageStats\<close> is an object used as a dictionary; \<^verbatim>\<open>Object.entries\<close> lists its
  properties in the order of their creation, so it is an association list and an
  assignment keeps the place of a property that exists. (A language name that is an
  array index or a member of \<^verbatim>\<open>Object.prototype\<close> is outside this model; only the
  field \<open>languages\<close> depends on it.)
\<close>

fun setProperty :: "(string \<times> 'a) list \<Rightarrow> string \<Rightarrow> 'a \<Rightarrow> (string \<times> 'a) list" where
  "setProperty [] k v = [(k, v)]"
| "setProperty ((k', v') # ps) k v = (if k' = k then (k, v) # ps else (k', v') # setProperty ps k v)"

definition addLanguage :: "RepoStats \<Rightarrow> (string \<times> nat) list \<Rightarrow> (string \<times> nat) list" where
  "addLanguage repo languageStats =
     (case language repo of
        None \<Rightarrow> languageStats
      | Some l \<Rightarrow>
          if l = [] then languageStats
          else setProperty languageStats l (orZero (map_of languageStats l) + commits repo))"

definition languageStatsOf :: "RepoStats list \<Rightarrow> (string \<times> nat) list" where
  "languageStatsOf repoStats = fold addLanguage repoStats []"

definition totalLanguageCommitsOf :: "(string \<times> nat) list \<Rightarrow> nat" where
  "totalLanguageCommitsOf languageStats = foldl (\<lambda>acc cnt. acc + cnt) 0 (map snd languageStats)"

text \<open>
  \<^verbatim>\<open>(count / totalLanguageCommits) * 100\<close> on two counts: \<^verbatim>\<open>0 / 0\<close> is NaN and so is
  \<^verbatim>\<open>NaN * 100\<close>; a positive count over 0 is Infinity.
\<close>

definition percentageOf :: "nat \<Rightarrow> nat \<Rightarrow> jsnum" where
  "percentageOf cnt totalLanguageCommits =
     (if totalLanguageCommits = 0
      then (if cnt = 0 then NaN else Infinity)
      else Number (real cnt / real totalLanguageCommits * 100))"

fun js_sub :: "jsnum \<Rightarrow> jsnum \<Rightarrow> jsnum" where
  "js_sub (Number a) (Number b) = Number (a - b)"
| "js_sub NaN _ = NaN"
| "js_sub _ NaN = NaN"
| "js_sub Infinity Infinity = NaN"
| "js_sub NegInfinity NegInfinity = NaN"
| "js_sub Infinity _ = Infinity"
| "js_sub NegInfinity _ = NegInfinity"
| "js_sub _ Infinity = NegInfinity"
| "js_sub _ NegInfinity = Infinity"

text \<open>The sort reads a comparator's NaN as 0.\<close>

fun js_positive :: "jsnum \<Rightarrow> bool" where
  "js_positive (Number x) = (x > 0)"
| "js_positive Infinity = True"
| "js_positive NegInfinity = False"
| "js_positive NaN = False"

text \<open>\<^verbatim>\<open>(a, b) => b.percentage - a.percentage\<close> is positive.\<close>

definition percentageAfter :: "string \<times> jsnum \<Rightarrow> string \<times> jsnum \<Rightarrow> bool" where
  "percentageAfter a b = js_positive (js_sub (snd b) (snd a))"

definition languagesOf :: "RepoStats list \<Rightarrow> (string \<times> jsnum) list" where
  "languagesOf repoStats =
     (let languageStats = languageStatsOf repoStats;
          totalLanguageCommits = totalLanguageCommitsOf languageStats
      in js_sort percentageAfter
           (map (\<lambda>(nm, cnt). (nm, percentageOf cnt totalLanguageCommits)) languageStats))"

section \<open>\<^verbatim>\<open>getGitHubStats\<close>\<close>

definition cacheKeyOf :: "string \<Rightarrow> string" where
  "cacheKeyOf tok = ''stats-'' @ tok"

text \<open>
  The object literal \<^verbatim>\<open>result\<close>, from the answer of the contributions query, the
  array of the lister and the answers of the two last identity calls (\<^verbatim>\<open>login\<close> is
  read from the first, \<^verbatim>\<open>avatar_url\<close> from the second). \<^verbatim>\<open>repoStats.sort\<close> sorts in
  place, so \<^verbatim>\<open>repoStats.length\<close> is the length of the sorted array.
\<close>

definition buildResult ::
  "'w env \<Rightarrow> contributions_collection \<Rightarrow> repo_node list \<Rightarrow> auth_user \<Rightarrow> auth_user \<Rightarrow> report" where
  "buildResult e cc allRepositories u3 u4 =
     (let (dailyContributions, activeDaysSet) = processCalendar e (weeks cc);
          totalComments' = totalIssueContributions cc;
          totalReviews' = totalPullRequestReviewContributions cc;
          allRepoContributions = totalCommitContributions cc;
          repoStats = map toRepoStats allRepositories;
          languages' = languagesOf repoStats;
          contributionsByDay' = contributionsByDayOf dailyContributions;
          repoStats' = js_sort commitsAfter repoStats
      in \<lparr>repos = repoStats',
          totalCommits = allRepoContributions,
          totalComments = totalComments',
          totalReviews = totalReviews',
          totalRepos = length repoStats',
          activeDays = length activeDaysSet,
          contributionsByDay = contributionsByDay',
          contributionsByType =
            [(''Commits'', allRepoContributions),
             (''Comments'', totalComments'),
             (''Reviews'', totalReviews')],
          languages = languages',
          user = \<lparr>login = login u3, avatar_url = avatar_url u4\<rparr>\<rparr>)"

text \<open>
  The \<^verbatim>\<open>try\<close> block, in the order of its awaits: the throttle, the identity call
  inside the query string, the contributions query, the identity call for the lister,
  the lister, the two identity calls inside the object literal, \<^verbatim>\<open>cache.set\<close>.
  Between the awaits the code only computes, so the result is built once all answers
  are there. Each rejected call leaves the block with its error.
\<close>

definition tryBlock ::
  "'w env \<Rightarrow> string \<Rightarrow> string \<Rightarrow> 'w state \<Rightarrow> ((error + report) \<times> 'w state) option" where
  "tryBlock e tok cacheKey s =
     (let s1 = rateLimit e s in
      case getAuthenticated e tok s1 of
        (Inl err, s2) \<Rightarrow> Some (Inl err, s2)
      | (Inr u1, s2) \<Rightarrow>
      (case contributionsQuery e tok (login u1) s2 of
        (Inl err, s3) \<Rightarrow> Some (Inl err, s3)
      | (Inr cc, s3) \<Rightarrow>
      (case getAuthenticated e tok s3 of
        (Inl err, s4) \<Rightarrow> Some (Inl err, s4)
      | (Inr u2, s4) \<Rightarrow>
      (case getAllRepositories e tok (login u2) s4 of
        None \<Rightarrow> None
      | Some (Inl err, s5) \<Rightarrow> Some (Inl err, s5)
      | Some (Inr allRepositories, s5) \<Rightarrow>
      (case getAuthenticated e tok s5 of
        (Inl err, s6) \<Rightarrow> Some (Inl err, s6)
      | (Inr u3, s6) \<Rightarrow>
      (case getAuthenticated e tok s6 of
        (Inl err, s7) \<Rightarrow> Some (Inl err, s7)
      | (Inr u4, s7) \<Rightarrow>
          (let result = buildResult e cc allRepositories u3 u4
           in Some (Inr result,
                    s7\<lparr>cache := cache_set (Date_now e (world s7)) cacheKey result (cache s7),
                       trace := trace s7 @ [CacheSet cacheKey]\<rparr>))))))))"

text \<open>
  The whole function. A falsy token (\<^verbatim>\<open>undefined\<close>, \<^verbatim>\<open>null\<close>, the empty string)
  throws before anything else. A cached value is an object, so it is truthy and
  returned. The catch block logs the error and throws it again.
\<close>

definition noToken :: error where
  "noToken = Error ''No access token provided''"

definition getGitHubStats ::
  "'w env \<Rightarrow> access_token \<Rightarrow> 'w state \<Rightarrow> ((error + report) \<times> 'w state) option" where
  "getGitHubStats e accessToken s =
     (case accessToken of
        Undefined \<Rightarrow> Some (Inl noToken, s)
      | Null \<Rightarrow> Some (Inl noToken, s)
      | Str tok \<Rightarrow>
          if tok = [] then Some (Inl noToken, s)
          else
            (let cacheKey = cacheKeyOf tok in
             case cache_get (Date_now e (world s)) cacheKey (cache s) of
               (cachedData, c) \<Rightarrow>
                 (let s0 = s\<lparr>cache := c, trace := trace s @ [CacheGet cacheKey]\<rparr> in
                  case cachedData of
                    Some r \<Rightarrow> Some (Inr r, s0)
                  | None \<Rightarrow>
                      (case tryBlock e tok cacheKey s0 of
                         None \<Rightarrow> None
                       | Some (Inl err, s') \<Rightarrow>
                           Some (Inl err, s'\<lparr>trace := trace s' @ [ConsoleError err]\<rparr>)
                       | Some (Inr result, s') \<Rightarrow> Some (Inr result, s')))))"

text \<open>What \<^verbatim>\<open>cache.get(cacheKey)\<close> would return in a state: \<open>None\<close> is a cache miss.\<close>

definition cached :: "'w env \<Rightarrow> string \<Rightarrow> 'w state \<Rightarrow> report option" where
  "cached e tok s = fst (cache_get (Date_now e (world s)) (cacheKeyOf tok) (cache s))"

subsection \<open>Reading a trace\<close>

fun is_remote :: "event \<Rightarrow> bool" where
  "is_remote (GetAuthenticated _) = True"
| "is_remote (ContributionsQuery _ _) = True"
| "is_remote (RepositoriesQuery _ _ _) = True"
| "is_remote _ = False"

fun is_identity_call :: "event \<Rightarrow> bool" where
  "is_identity_call (GetAuthenticated _) = True"
| "is_identity_call _ = False"

fun is_cache_set :: "event \<Rightarrow> bool" where
  "is_cache_set (CacheSet _) = True"
| "is_cache_set _ = False"

text \<open>The errors of the rejected remote calls of a trace, in order.\<close>

fun failure_of :: "event \<Rightarrow> error list" where
  "failure_of (GetAuthenticated (Inl err)) = [err]"
| "failure_of (ContributionsQuery _ (Inl err)) = [err]"
| "failure_of (RepositoriesQuery _ _ (Inl err)) = [err]"
| "failure_of _ = []"

definition failures :: "event list \<Rightarrow> error list" where
  "failures tr = concat (map failure_of tr)"

text \<open>The repositories of the answered listing pages of a trace, in order.\<close>

fun listed_of :: "event \<Rightarrow> repo_node list" where
  "listed_of (RepositoriesQuery _ _ (Inr page)) = nodes page"
| "listed_of _ = []"

definition listed :: "event list \<Rightarrow> repo_node list" where
  "listed tr = concat (map listed_of tr)"

text \<open>The answers of the answered contributions queries of a trace.\<close>

fun calendar_of :: "event \<Rightarrow> contributions_collection list" where
  "calendar_of (ContributionsQuery _ (Inr cc)) = [cc]"
| "calendar_of _ = []"

definition calendars :: "event list \<Rightarrow> contributions_collection list" where
  "calendars tr = concat (map calendar_of tr)"

fun is_page_query :: "event \<Rightarrow> bool" where
  "is_page_query (RepositoriesQuery _ _ _) = True"
| "is_page_query _ = False"

text \<open>
  A complete pagination from a cursor: every query is answered, each one is sent with
  the cursor the page before it returned, and the last page, and only the last, says
  that no page follows.
\<close>

fun paginated :: "string option \<Rightarrow> event list \<Rightarrow> bool" where
  "paginated cursor (RepositoriesQuery _ c (Inr page) # rest) =
     (c = cursor \<and> (if hasNextPage page then paginated (endCursor page) rest else rest = []))"
| "paginated cursor _ = False"

section \<open>The throttle under overlapping calls\<close>

text \<open>
  \<^verbatim>\<open>rateLimit\<close> has one suspension point, the \<^verbatim>\<open>await\<close> of the timer. Up to it the
  function runs without interruption: it reads the clock and \<^verbatim>\<open>lastCall\<close> and either
  starts a timer or falls through; after it, the function assigns \<^verbatim>\<open>lastCall\<close> and
  returns. Calls that overlap interleave at that point. The event loop below has the
  clock, \<^verbatim>\<open>rateLimiter.lastCall\<close>, the pending timer of every suspended call (when it
  is due) and, for every call that got through, the time at which \<^verbatim>\<open>rateLimit\<close>
  returned to it, which is when its remote calls start.
\<close>

record event_loop =
  clock :: int
  limiter_lastCall :: int
  timers :: "(nat \<times> int) list"
  started :: "(nat \<times> int) list"

text \<open>
  \<open>Call i\<close>: call \<open>i\<close> enters \<^verbatim>\<open>rateLimit\<close>. \<open>Wait d\<close>: \<open>d\<close> milliseconds pass.
  \<open>Resume i\<close>: the timer of call \<open>i\<close> fires and the call goes on; a timer does not
  fire before it is due.
\<close>

datatype step = Call nat | Wait int | Resume nat

fun loop_step :: "step \<Rightarrow> event_loop \<Rightarrow> event_loop option" where
  "loop_step (Call i) l =
     (let now = clock l;
          timeSinceLastCall = now - limiter_lastCall l
      in if timeSinceLastCall < minInterval
         then Some (l\<lparr>timers := (i, now + (minInterval - timeSinceLastCall)) # timers l\<rparr>)
         else Some (l\<lparr>limiter_lastCall := clock l, started := started l @ [(i, clock l)]\<rparr>))"
| "loop_step (Wait d) l = (if d < 0 then None else Some (l\<lparr>clock := clock l + d\<rparr>))"
| "loop_step (Resume i) l =
     (case map_of (timers l) i of
        None \<Rightarrow> None
      | Some due \<Rightarrow>
          if clock l < due then None
          else Some (l\<lparr>limiter_lastCall := clock l,
                        timers := filter (\<lambda>t. fst t \<noteq> i) (timers l),
                        started := started l @ [(i, clock l)]\<rparr>))"

fun loop_run :: "step list \<Rightarrow> event_loop \<Rightarrow> event_loop option" where
  "loop_run [] l = Some l"
| "loop_run (st # sts) l = (case loop_step st l of None \<Rightarrow> None | Some l' \<Rightarrow> loop_run sts l')"

section \<open>Notions of the specification\<close>


text \<open>
  A page of the listing is rejected: the query with this cursor is, or it is answered
  with a page that announces a next one and a later page is rejected. \<open>sf\<close> is the
  state the rejected query leaves.
\<close>

inductive page_rejected ::
  "'w env \<Rightarrow> string \<Rightarrow> string \<Rightarrow> string option \<Rightarrow> 'w state \<Rightarrow> error \<Rightarrow> 'w state \<Rightarrow> bool"
  for e :: "'w env" and tok :: string and lg :: string where
  this_page:
    "repositoriesQuery e tok lg cursor s = (Inl err, sf) \<Longrightarrow> page_rejected e tok lg cursor s err sf"
| later_page:
    "repositoriesQuery e tok lg cursor s = (Inr page, s1) \<Longrightarrow> hasNextPage page \<Longrightarrow>
     page_rejected e tok lg (endCursor page) s1 err sf \<Longrightarrow>
     page_rejected e tok lg cursor s err sf"

text \<open>
  A remote call of the try block, entered in the state \<open>s\<close>, is rejected with \<open>err\<close>:
  one case for each place where the block calls the remote API, with the calls before
  it answered. \<open>sf\<close> is the state the rejected call leaves.
\<close>

inductive rejected :: "'w env \<Rightarrow> string \<Rightarrow> 'w state \<Rightarrow> error \<Rightarrow> 'w state \<Rightarrow> bool"
  for e :: "'w env" and tok :: string where
  first_identity:
    "getAuthenticated e tok (rateLimit e s) = (Inl err, sf) \<Longrightarrow> rejected e tok s err sf"
| contributions:
    "getAuthenticated e tok (rateLimit e s) = (Inr u1, s2) \<Longrightarrow>
     contributionsQuery e tok (login u1) s2 = (Inl err, sf) \<Longrightarrow> rejected e tok s err sf"
| second_identity:
    "getAuthenticated e tok (rateLimit e s) = (Inr u1, s2) \<Longrightarrow>
     contributionsQuery e tok (login u1) s2 = (Inr cc, s3) \<Longrightarrow>
     getAuthenticated e tok s3 = (Inl err, sf) \<Longrightarrow> rejected e tok s err sf"
| listing_page:
    "getAuthenticated e tok (rateLimit e s) = (Inr u1, s2) \<Longrightarrow>
     contributionsQuery e tok (login u1) s2 = (Inr cc, s3) \<Longrightarrow>
     getAuthenticated e tok s3 = (Inr u2, s4) \<Longrightarrow>
     page_rejected e tok (login u2) None s4 err sf \<Longrightarrow> rejected e tok s err sf"
| third_identity:
    "getAuthenticated e tok (rateLimit e s) = (Inr u1, s2) \<Longrightarrow>
     contributionsQuery e tok (login u1) s2 = (Inr cc, s3) \<Longrightarrow>
     getAuthenticated e tok s3 = (Inr u2, s4) \<Longrightarrow>
     getAllRepositories e tok (login u2) s4 = Some (Inr ns, s5) \<Longrightarrow>
     getAuthenticated e tok s5 = (Inl err, sf) \<Longrightarrow> rejected e tok s err sf"
| fourth_identity:
    "getAuthenticated e tok (rateLimit e s) = (Inr u1, s2) \<Longrightarrow>
     contributionsQuery e tok (login u1) s2 = (Inr cc, s3) \<Longrightarrow>
     getAuthenticated e tok s3 = (Inr u2, s4) \<Longrightarrow>
     getAllRepositories e tok (login u2) s4 = Some (Inr ns, s5) \<Longrightarrow>
     getAuthenticated e tok s5 = (Inr u3, s6) \<Longrightarrow>
     getAuthenticated e tok s6 = (Inl err, sf) \<Longrightarrow> rejected e tok s err sf"

text \<open>The breakdown by type repeats the three totals of the report, in a fixed order.\<close>

definition typeBreakdownOk :: "report \<Rightarrow> bool" where
  "typeBreakdownOk r \<longleftrightarrow>
     contributionsByType r =
       [(''Commits'', totalCommits r), (''Comments'', totalComments r), (''Reviews'', totalReviews r)]"

text \<open>The sum of a list of JavaScript numbers, from 0: NaN absorbs.\<close>

fun js_add :: "jsnum \<Rightarrow> jsnum \<Rightarrow> jsnum" where
  "js_add (Number a) (Number b) = Number (a + b)"
| "js_add NaN _ = NaN"
| "js_add _ NaN = NaN"
| "js_add Infinity NegInfinity = NaN"
| "js_add NegInfinity Infinity = NaN"
| "js_add Infinity _ = Infinity"
| "js_add NegInfinity _ = NegInfinity"
| "js_add _ Infinity = Infinity"
| "js_add _ NegInfinity = NegInfinity"

definition js_sum :: "jsnum list \<Rightarrow> jsnum" where
  "js_sum xs = foldl js_add (Number 0) xs"

text \<open>The value of a finite number, and the repositories that enter the language shares.\<close>

definition numberOf :: "jsnum \<Rightarrow> real" where
  "numberOf x = (case x of Number r \<Rightarrow> r | _ \<Rightarrow> 0)"

definition hasLanguage :: "RepoStats \<Rightarrow> bool" where
  "hasLanguage repo = (case language repo of None \<Rightarrow> False | Some l \<Rightarrow> l \<noteq> [])"

text \<open>The sum of the seven weekday buckets of a dictionary of daily contributions.\<close>

definition bucketTotal :: "(string \<rightharpoonup> nat) \<Rightarrow> nat" where
  "bucketTotal m = (\<Sum>d\<leftarrow>daysOrder. orZero (m d))"

section \<open>Fixtures\<close>

text \<open>
  A remote API with fixed answers. Its world is the clock (in milliseconds) and the
  number of listing pages served: an identity call takes 20 ms, the contributions
  query 50 ms, a listing page 30 ms, and a timer fires exactly when due. The listing
  query serves the pages of a list in order and rejects once the list is used up.
\<close>

definition fixture_weekday :: "string \<Rightarrow> string" where
  "fixture_weekday d =
     (if d = ''2024-01-01'' then ''Monday''
      else if d = ''2024-01-02'' then ''Tuesday''
      else if d = ''2024-01-03'' then ''Wednesday''
      else if d = ''2024-01-08'' then ''Monday''
      else ''Invalid Date'')"

definition fixture_user :: auth_user where
  "fixture_user = \<lparr>login = ''octocat'', avatar_url = ''https://example.org/octocat.png''\<rparr>"

definition fixture_env ::
  "contributions_collection \<Rightarrow> (error + repositories_page) list \<Rightarrow> (nat \<times> nat) env" where
  "fixture_env cc pages =
     \<lparr>Date_now = (\<lambda>w. int (fst w)),
      setTimeout = (\<lambda>d w. (fst w + nat d, snd w)),
      users_getAuthenticated = (\<lambda>tok w. (Inr fixture_user, (fst w + 20, snd w))),
      graphql_contributions = (\<lambda>tok lg w. (Inr cc, (fst w + 50, snd w))),
      graphql_repositories = (\<lambda>tok lg cursor w.
         (if snd w < length pages then pages ! snd w else Inl (RequestError 404 ''Not Found''),
          (fst w + 30, Suc (snd w)))),
      toLocaleWeekday = fixture_weekday\<rparr>"

definition fixture_calendar :: contributions_collection where
  "fixture_calendar =
     \<lparr>totalCommitContributions = 5, totalIssueContributions = 1,
      totalPullRequestContributions = 0, totalPullRequestReviewContributions = 2,
      weeks = [[\<lparr>contributionCount = 3, date = ''2024-01-01'', weekday = 1\<rparr>,
                \<lparr>contributionCount = 4, date = ''2024-01-02'', weekday = 2\<rparr>,
                \<lparr>contributionCount = 0, date = ''2024-01-03'', weekday = 3\<rparr>],
               [\<lparr>contributionCount = 2, date = ''2024-01-08'', weekday = 1\<rparr>]]\<rparr>"

text \<open>
  Three repositories: a public one in Go with 10 commits, a private one with 5 commits
  and no detected language, and a private one without a default branch.
\<close>

definition repoA :: repo_node where
  "repoA = \<lparr>nameWithOwner = ''octocat/a'', node_isPrivate = False, node_url = ''u/a'',
     node_description = None, primaryLanguage = Some ''Go'', stargazerCount = 7,
     defaultBranchRef = Some (Ref (Some (GitObject (Some (History 10)))))\<rparr>"

definition repoB :: repo_node where
  "repoB = \<lparr>nameWithOwner = ''octocat/b'', node_isPrivate = True, node_url = ''u/b'',
     node_description = Some ''b'', primaryLanguage = None, stargazerCount = 0,
     defaultBranchRef = Some (Ref (Some (GitObject (Some (History 5)))))\<rparr>"

definition repoC :: repo_node where
  "repoC = \<lparr>nameWithOwner = ''octocat/c'', node_isPrivate = True, node_url = ''u/c'',
     node_description = None, primaryLanguage = None, stargazerCount = 0,
     defaultBranchRef = None\<rparr>"

definition fixture_page1 :: repositories_page where
  "fixture_page1 = \<lparr>nodes = [repoC, repoA], hasNextPage = True, endCursor = Some ''c1''\<rparr>"

definition fixture_page2 :: repositories_page where
  "fixture_page2 = \<lparr>nodes = [repoB], hasNextPage = False, endCursor = None\<rparr>"

definition fixture_pages :: "(error + repositories_page) list" where
  "fixture_pages = [Inr fixture_page1, Inr fixture_page2]"

text \<open>The same listing, with a second page that is rejected.\<close>

definition badGateway :: error where
  "badGateway = RequestError 502 ''Bad Gateway''"

definition failing_pages :: "(error + repositories_page) list" where
  "failing_pages = [Inr fixture_page1, Inl badGateway]"

text \<open>A fresh process: an empty cache, \<^verbatim>\<open>lastCall: 0\<close>, and the clock at some time of day.\<close>

definition fixture_state :: "(nat \<times> nat) state" where
  "fixture_state = \<lparr>cache = [], lastCall = 0, world = (1700000000000, 0), trace = []\<rparr>"

text \<open>What the call with the token \<^verbatim>\<open>t\<close> returns on the fixture, and the state it leaves.\<close>

definition fixture_report :: report where
  "fixture_report =
     \<lparr>repos = [toRepoStats repoA, toRepoStats repoB, toRepoStats repoC],
      totalCommits = 5, totalComments = 1, totalReviews = 2, totalRepos = 3, activeDays = 3,
      contributionsByDay =
        [(''Monday'', 5), (''Tuesday'', 4), (''Wednesday'', 0), (''Thursday'', 0),
         (''Friday'', 0), (''Saturday'', 0), (''Sunday'', 0)],
      contributionsByType = [(''Commits'', 5), (''Comments'', 1), (''Reviews'', 2)],
      languages = [(''Go'', Number 100)],
      user = fixture_user\<rparr>"

definition fixture_final :: "(nat \<times> nat) state" where
  "fixture_final =
     \<lparr>cache = [(''stats-t'', fixture_report, 1700000000190)],
      lastCall = 1700000000000,
      world = (1700000000190, 2),
      trace =
        [CacheGet ''stats-t'',
         GetAuthenticated (Inr fixture_user),
         ContributionsQuery ''octocat'' (Inr fixture_calendar),
         GetAuthenticated (Inr fixture_user),
         RepositoriesQuery ''octocat'' None (Inr fixture_page1),
         RepositoriesQuery ''octocat'' (Some ''c1'') (Inr fixture_page2),
         GetAuthenticated (Inr fixture_user),
         GetAuthenticated (Inr fixture_user),
         CacheSet ''stats-t'']\<rparr>"

text \<open>
  A state 10 seconds later, after a successful call with another token: its report has
  been put in front of the cache and nothing has been evicted.
\<close>

definition later_state :: "(nat \<times> nat) state" where
  "later_state =
     fixture_final
       \<lparr>cache := (''stats-u'', fixture_report, 1700000009000) # cache fixture_final,
        lastCall := 1700000008810,
        world := (1700000010000, 4)\<rparr>"

text \<open>The state the rejected second page leaves.\<close>

definition failing_final :: "(nat \<times> nat) state" where
  "failing_final =
     \<lparr>cache = [],
      lastCall = 1700000000000,
      world = (1700000000150, 2),
      trace =
        [CacheGet ''stats-t'',
         GetAuthenticated (Inr fixture_user),
         ContributionsQuery ''octocat'' (Inr fixture_calendar),
         GetAuthenticated (Inr fixture_user),
         RepositoriesQuery ''octocat'' None (Inr fixture_page1),
         RepositoriesQuery ''octocat'' (Some ''c1'') (Inl badGateway),
         ConsoleError badGateway]\<rparr>"

text \<open>
  A listing of one repository with a detected language whose default branch is missing.
\<close>

definition repoD :: repo_node where
  "repoD = \<lparr>nameWithOwner = ''octocat/d'', node_isPrivate = False, node_url = ''u/d'',
     node_description = None, primaryLanguage = Some ''Go'', stargazerCount = 0,
     defaultBranchRef = None\<rparr>"

definition branchless_pages :: "(error + repositories_page) list" where
  "branchless_pages = [Inr \<lparr>nodes = [repoD], hasNextPage = False, endCursor = None\<rparr>]"

text \<open>
  A world that is nothing but an exact clock: a timer fires exactly when due, and the
  remote API rejects every call.
\<close>

definition exact_clock :: "int env" where
  "exact_clock =
     \<lparr>Date_now = (\<lambda>w. w),
      setTimeout = (\<lambda>d w. w + d),
      users_getAuthenticated = (\<lambda>tok w. (Inl (RequestError 503 ''Service Unavailable''), w)),
      graphql_contributions = (\<lambda>tok lg w. (Inl (RequestError 503 ''Service Unavailable''), w)),
      graphql_repositories = (\<lambda>tok lg cursor w. (Inl (RequestError 503 ''Service Unavailable''), w)),
      toLocaleWeekday = (\<lambda>d. ''Invalid Date'')\<rparr>"

text \<open>
  Three overlapping calls in a fresh process: the second enters 100 ms after the
  first, the third 100 ms after the second; 800 ms later both timers are due.
\<close>

definition fresh_loop :: event_loop where
  "fresh_loop = \<lparr>clock = 1700000000000, limiter_lastCall = 0, timers = [], started = []\<rparr>"

definition overlapping_calls :: "step list" where
  "overlapping_calls = [Call 0, Wait 100, Call 1, Wait 100, Call 2, Wait 800, Resume 1, Resume 2]"

section \<open>Reading traces\<close>

lemma failures_Nil [simp]: "failures [] = []"
  by (simp add: failures_def)

lemma failures_Cons [simp]: "failures (x # a) = failure_of x @ failures a"
  by (simp add: failures_def)

lemma failures_append [simp]: "failures (a @ b) = failures a @ failures b"
  by (simp add: failures_def)

lemma listed_Nil [simp]: "listed [] = []"
  by (simp add: listed_def)

lemma listed_Cons [simp]: "listed (x # a) = listed_of x @ listed a"
  by (simp add: listed_def)

lemma listed_append [simp]: "listed (a @ b) = listed a @ listed b"
  by (simp add: listed_def)

lemma calendars_Nil [simp]: "calendars [] = []"
  by (simp add: calendars_def)

lemma calendars_Cons [simp]: "calendars (x # a) = calendar_of x @ calendars a"
  by (simp add: calendars_def)

lemma calendars_append [simp]: "calendars (a @ b) = calendars a @ calendars b"
  by (simp add: calendars_def)

lemma pages_no_identity: "list_all is_page_query d \<Longrightarrow> filter is_identity_call d = []"
  by (induction d) (auto elim: is_page_query.elims)

lemma pages_no_calendars: "list_all is_page_query d \<Longrightarrow> calendars d = []"
  by (induction d) (auto elim: is_page_query.elims)

lemma pages_no_cache_set: "list_all is_page_query d \<Longrightarrow> filter is_cache_set d = []"
  by (induction d) (auto elim: is_page_query.elims)

lemma pages_only: "list_all is_page_query d \<Longrightarrow> filter is_page_query d = d"
  by (induction d) auto

section \<open>The cache\<close>

lemma cache_get_miss: "fst (cache_get now k c) = None \<Longrightarrow> snd (cache_get now k c) = c"
  by (auto simp: cache_get_def split: option.splits prod.splits if_splits)

lemma cache_get_hit:
  "cache_get now k c = (Some v, c') \<Longrightarrow>
   \<exists>t. map_of c k = Some (v, t) \<and> now < t + cache_ttl \<and> c' = (k, v, t) # filter (\<lambda>e. fst e \<noteq> k) c"
  by (auto simp: cache_get_def split: option.splits prod.splits if_splits)

lemma cache_get_live:
  "map_of c k = Some (v, t) \<Longrightarrow> now < t + cache_ttl \<Longrightarrow>
   cache_get now k c = (Some v, (k, v, t) # filter (\<lambda>e. fst e \<noteq> k) c)"
  by (simp add: cache_get_def)

lemma map_of_cache_set: "map_of (cache_set now k v c) k = Some (v, now)"
  by (simp add: cache_set_def)

lemma cache_set_all:
  "P v \<Longrightarrow> list_all (\<lambda>entry. P (fst (snd entry))) c
     \<Longrightarrow> list_all (\<lambda>entry. P (fst (snd entry))) (cache_set now k v c)"
proof -
  assume v: "P v" and c: "list_all (\<lambda>entry. P (fst (snd entry))) c"
  have "set (take (cache_max - 1) (filter (\<lambda>e. fst e \<noteq> k) c)) \<subseteq> set c"
    using set_take_subset[of "cache_max - 1" "filter (\<lambda>e. fst e \<noteq> k) c"] by auto
  with v c show ?thesis
    by (auto simp: cache_set_def list_all_iff)
qed

lemma cache_get_all:
  assumes "cache_get now k c = (Some v, c')" "list_all (\<lambda>entry. P (fst (snd entry))) c"
  shows "P v \<and> list_all (\<lambda>entry. P (fst (snd entry))) c'"
proof -
  from cache_get_hit[OF assms(1)] obtain t where
    t: "map_of c k = Some (v, t)" "c' = (k, v, t) # filter (\<lambda>e. fst e \<noteq> k) c"
    by (elim exE conjE)
  from t(1) have "(k, v, t) \<in> set c" by (rule map_of_SomeD)
  with assms(2) have "P v" by (auto simp: list_all_iff)
  with t(2) assms(2) show ?thesis by (auto simp: list_all_iff)
qed

section \<open>What each step does to the state\<close>

lemma rateLimit_effect:
  "\<exists>d. trace (rateLimit e s) = trace s @ d \<and> cache (rateLimit e s) = cache s
      \<and> (d = [] \<or> (\<exists>x. d = [Timer x]))"
  by (simp add: rateLimit_def Let_def)

lemma getAuthenticated_effect:
  "getAuthenticated e tok s = (res, s') \<Longrightarrow>
   trace s' = trace s @ [GetAuthenticated res] \<and> cache s' = cache s"
  by (auto simp: getAuthenticated_def split: prod.splits)

lemma contributionsQuery_effect:
  "contributionsQuery e tok lg s = (res, s') \<Longrightarrow>
   trace s' = trace s @ [ContributionsQuery lg res] \<and> cache s' = cache s"
  by (auto simp: contributionsQuery_def split: prod.splits)

text \<open>
  The pagination loop, by fixpoint induction: when it returns, it has added listing
  queries only, left the cache alone, failed with the error of its one rejected query
  or returned the accumulated repositories followed by those of all its pages, which
  then form a complete pagination from its cursor.
\<close>

lemma repositoriesLoop_effect:
  assumes "repositoriesLoop e tok lg acc cursor s = Some y"
  shows "\<exists>d. trace (snd y) = trace s @ d \<and> cache (snd y) = cache s
           \<and> list_all is_page_query d
           \<and> failures d = (case fst y of Inl err \<Rightarrow> [err] | Inr _ \<Rightarrow> [])
           \<and> (case fst y of Inl _ \<Rightarrow> True | Inr ns \<Rightarrow> ns = acc @ listed d \<and> paginated cursor d)"
proof (rule repositoriesLoop.raw_induct[OF _ assms], goal_cases)
  case (1 loop e tok lg acc cursor s y)
  show ?case
  proof (cases "graphql_repositories e tok lg cursor (world s)")
    case (Pair r w)
    show ?thesis
    proof (cases r)
      case (Inl err)
      with 1(2) Pair show ?thesis
        by (auto simp: repositoriesQuery_def)
    next
      case (Inr page)
      show ?thesis
      proof (cases "hasNextPage page")
        case False
        with 1(2) Pair Inr show ?thesis
          by (auto simp: repositoriesQuery_def)
      next
        case True
        let ?s1 = "s\<lparr>world := w, trace := trace s @ [RepositoriesQuery lg cursor r]\<rparr>"
        from 1(2) Pair Inr True
        have "loop e tok lg (acc @ nodes page) (endCursor page) ?s1 = Some y"
          by (simp add: repositoriesQuery_def)
        from 1(1)[OF this] obtain d where
          d: "trace (snd y) = trace ?s1 @ d" "cache (snd y) = cache ?s1"
             "list_all is_page_query d"
             "failures d = (case fst y of Inl err \<Rightarrow> [err] | Inr _ \<Rightarrow> [])"
             "(case fst y of Inl _ \<Rightarrow> True
               | Inr ns \<Rightarrow> ns = (acc @ nodes page) @ listed d \<and> paginated (endCursor page) d)"
          by blast
        show ?thesis
          apply (rule exI[of _ "RepositoriesQuery lg cursor r # d"])
          using d Inr True by (auto split: sum.splits)
      qed
    qed
  qed
qed

lemma getAllRepositories_effect:
  assumes "getAllRepositories e tok lg s = Some (res, s')"
  shows "\<exists>d. trace s' = trace s @ d \<and> cache s' = cache s \<and> list_all is_page_query d
           \<and> failures d = (case res of Inl err \<Rightarrow> [err] | Inr _ \<Rightarrow> [])
           \<and> (case res of Inl _ \<Rightarrow> True | Inr ns \<Rightarrow> ns = listed d \<and> paginated None d)"
  using repositoriesLoop_effect[OF assms[unfolded getAllRepositories_def]]
  by (auto split: sum.splits)

text \<open>A run of the try block that returns.\<close>

lemma tryBlock_effect:
  assumes run: "tryBlock e tok key s = Some (res, s')"
  shows "trace s' = trace s @ new_events s s'
     \<and> failures (new_events s s') = (case res of Inl err \<Rightarrow> [err] | Inr _ \<Rightarrow> [])
     \<and> (case res of
          Inl _ \<Rightarrow> cache s' = cache s \<and> filter is_cache_set (new_events s s') = []
        | Inr r \<Rightarrow>
            cache s' = cache_set (Date_now e (world s')) key r (cache s)
          \<and> length (filter is_identity_call (new_events s s')) = 4
          \<and> paginated None (filter is_page_query (new_events s s'))
          \<and> (\<exists>cc u3 u4. calendars (new_events s s') = [cc]
                \<and> r = buildResult e cc (listed (new_events s s')) u3 u4))"
proof -
  obtain d0 where d0: "trace (rateLimit e s) = trace s @ d0" "cache (rateLimit e s) = cache s"
      "d0 = [] \<or> (\<exists>x. d0 = [Timer x])"
    using rateLimit_effect by blast
  obtain r1 s2 where c1: "getAuthenticated e tok (rateLimit e s) = (r1, s2)"
    by (cases "getAuthenticated e tok (rateLimit e s)")
  note e1 = getAuthenticated_effect[OF c1]
  show ?thesis
  proof (cases r1)
    case (Inl err)
    with run c1 have "res = Inl err" "s' = s2" by (auto simp: tryBlock_def Let_def)
    with e1 d0 Inl show ?thesis by (auto simp: new_events_def)
  next
    case u1: (Inr u1)
    obtain r2 s3 where c2: "contributionsQuery e tok (login u1) s2 = (r2, s3)"
      by (cases "contributionsQuery e tok (login u1) s2")
    note e2 = contributionsQuery_effect[OF c2]
    show ?thesis
    proof (cases r2)
      case (Inl err)
      with run c1 u1 c2 have "res = Inl err" "s' = s3" by (auto simp: tryBlock_def Let_def)
      with e1 e2 d0 Inl u1 show ?thesis by (auto simp: new_events_def)
    next
      case cc: (Inr cc)
      obtain r3 s4 where c3: "getAuthenticated e tok s3 = (r3, s4)"
        by (cases "getAuthenticated e tok s3")
      note e3 = getAuthenticated_effect[OF c3]
      show ?thesis
      proof (cases r3)
        case (Inl err)
        with run c1 u1 c2 cc c3 have "res = Inl err" "s' = s4" by (auto simp: tryBlock_def Let_def)
        with e1 e2 e3 d0 Inl u1 cc show ?thesis by (auto simp: new_events_def)
      next
        case u2: (Inr u2)
        from run c1 u1 c2 cc c3 u2 obtain r4 s5 where
          c4: "getAllRepositories e tok (login u2) s4 = Some (r4, s5)"
          by (cases "getAllRepositories e tok (login u2) s4") (auto simp: tryBlock_def Let_def)
        from getAllRepositories_effect[OF c4] obtain d4 where
          e4: "trace s5 = trace s4 @ d4" "cache s5 = cache s4" "list_all is_page_query d4"
              "failures d4 = (case r4 of Inl err \<Rightarrow> [err] | Inr _ \<Rightarrow> [])"
              "(case r4 of Inl _ \<Rightarrow> True | Inr ns \<Rightarrow> ns = listed d4 \<and> paginated None d4)"
          by blast
        note p4 = pages_no_identity[OF e4(3)] pages_no_calendars[OF e4(3)]
          pages_no_cache_set[OF e4(3)] pages_only[OF e4(3)]
        show ?thesis
        proof (cases r4)
          case (Inl err)
          with run c1 u1 c2 cc c3 u2 c4 have "res = Inl err" "s' = s5"
            by (auto simp: tryBlock_def Let_def)
          with e1 e2 e3 e4 p4 d0 Inl u1 cc u2 show ?thesis by (auto simp: new_events_def)
        next
          case ns: (Inr ns)
          obtain r5 s6 where c5: "getAuthenticated e tok s5 = (r5, s6)"
            by (cases "getAuthenticated e tok s5")
          note e5 = getAuthenticated_effect[OF c5]
          show ?thesis
          proof (cases r5)
            case (Inl err)
            with run c1 u1 c2 cc c3 u2 c4 ns c5 have "res = Inl err" "s' = s6"
              by (auto simp: tryBlock_def Let_def)
            with e1 e2 e3 e4 e5 p4 d0 Inl u1 cc u2 ns show ?thesis by (auto simp: new_events_def)
          next
            case u3: (Inr u3)
            obtain r6 s7 where c6: "getAuthenticated e tok s6 = (r6, s7)"
              by (cases "getAuthenticated e tok s6")
            note e6 = getAuthenticated_effect[OF c6]
            show ?thesis
            proof (cases r6)
              case (Inl err)
              with run c1 u1 c2 cc c3 u2 c4 ns c5 u3 c6 have "res = Inl err" "s' = s7"
                by (auto simp: tryBlock_def Let_def)
              with e1 e2 e3 e4 e5 e6 p4 d0 Inl u1 cc u2 ns u3 show ?thesis
                by (auto simp: new_events_def)
            next
              case u4: (Inr u4)
              let ?r = "buildResult e cc ns u3 u4"
              from run c1 u1 c2 cc c3 u2 c4 ns c5 u3 c6 u4
              have res: "res = Inr ?r"
                and s': "s' = s7\<lparr>cache := cache_set (Date_now e (world s7)) key ?r (cache s7),
                                  trace := trace s7 @ [CacheSet key]\<rparr>"
                by (auto simp: tryBlock_def Let_def)
              with e1 e2 e3 e4 e5 e6 p4 d0 u1 cc u2 ns u3 u4 show ?thesis
                by (auto simp: new_events_def) (rule exI, rule exI, rule refl)+
            qed
          qed
        qed
      qed
    qed
  qed
qed

text \<open>A cache-miss run of the whole function that returns.\<close>

lemma getGitHubStats_miss:
  assumes run: "getGitHubStats e (Str tok) s = Some (res, s')"
    and tok: "tok \<noteq> []"
    and miss: "cached e tok s = None"
  shows "failures (new_events s s') = (case res of Inl err \<Rightarrow> [err] | Inr _ \<Rightarrow> [])
     \<and> (case res of
          Inl _ \<Rightarrow> cache s' = cache s \<and> filter is_cache_set (new_events s s') = []
        | Inr r \<Rightarrow>
            cache s' = cache_set (Date_now e (world s')) (cacheKeyOf tok) r (cache s)
          \<and> length (filter is_identity_call (new_events s s')) = 4
          \<and> paginated None (filter is_page_query (new_events s s'))
          \<and> (\<exists>cc u3 u4. calendars (new_events s s') = [cc]
                \<and> r = buildResult e cc (listed (new_events s s')) u3 u4))"
proof -
  let ?key = "cacheKeyOf tok"
  let ?s0 = "s\<lparr>trace := trace s @ [CacheGet ?key]\<rparr>"
  from miss have g: "cache_get (Date_now e (world s)) ?key (cache s) = (None, cache s)"
    using cache_get_miss[of "Date_now e (world s)" ?key "cache s"]
    by (simp add: cached_def prod_eq_iff)
  from run tok g obtain s1 where
    t: "tryBlock e tok ?key ?s0 = Some (res, s1)"
    and s': "s' = (case res of Inl err \<Rightarrow> s1\<lparr>trace := trace s1 @ [ConsoleError err]\<rparr> | Inr _ \<Rightarrow> s1)"
    by (auto simp: getGitHubStats_def Let_def split: option.splits sum.splits)
  define d1 where "d1 = new_events ?s0 s1"
  from tryBlock_effect[OF t] have
    e: "trace s1 = trace ?s0 @ d1"
       "failures d1 = (case res of Inl err \<Rightarrow> [err] | Inr _ \<Rightarrow> [])"
       "(case res of
          Inl _ \<Rightarrow> cache s1 = cache ?s0 \<and> filter is_cache_set d1 = []
        | Inr r \<Rightarrow>
            cache s1 = cache_set (Date_now e (world s1)) ?key r (cache ?s0)
          \<and> length (filter is_identity_call d1) = 4
          \<and> paginated None (filter is_page_query d1)
          \<and> (\<exists>cc u3 u4. calendars d1 = [cc] \<and> r = buildResult e cc (listed d1) u3 u4))"
    unfolding d1_def by blast+
  from e(1) have tr: "trace s1 = trace s @ CacheGet ?key # d1"
    by simp
  have n: "new_events s s' = CacheGet ?key # d1
             @ (case res of Inl err \<Rightarrow> [ConsoleError err] | Inr _ \<Rightarrow> [])"
    using tr s' by (auto simp: new_events_def split: sum.splits)
  show ?thesis
    using e(2,3) s' unfolding n by (cases res) auto
qed

lemma success_token: "getGitHubStats e (Str tok) s = Some (Inr r, s') \<Longrightarrow> tok \<noteq> []"
  by (auto simp: getGitHubStats_def)

text \<open>A run that returns a report leaves it in the cache under the key of the token.\<close>

lemma success_cached:
  assumes run: "getGitHubStats e (Str tok) s = Some (Inr r, s1)"
  shows "\<exists>t. map_of (cache s1) (cacheKeyOf tok) = Some (r, t)
             \<and> (cached e tok s = None \<longrightarrow> t = Date_now e (world s1))"
proof (cases "cached e tok s")
  case None
  from getGitHubStats_miss[OF run success_token[OF run] None]
  have "cache s1 = cache_set (Date_now e (world s1)) (cacheKeyOf tok) r (cache s)"
    by simp
  then show ?thesis by (simp add: map_of_cache_set)
next
  case (Some r0)
  then obtain c where g: "cache_get (Date_now e (world s)) (cacheKeyOf tok) (cache s) = (Some r0, c)"
    by (cases "cache_get (Date_now e (world s)) (cacheKeyOf tok) (cache s)") (simp add: cached_def)
  from cache_get_hit[OF g] obtain t where
    t: "c = (cacheKeyOf tok, r0, t) # filter (\<lambda>e. fst e \<noteq> cacheKeyOf tok) (cache s)"
    by blast
  from run success_token[OF run] g have "r = r0" "cache s1 = c"
    by (auto simp: getGitHubStats_def Let_def)
  with t Some show ?thesis by simp
qed

text \<open>A cache miss hands the call over to the try block.\<close>

lemma getGitHubStats_miss_unfold:
  assumes "tok \<noteq> []" and "cached e tok s = None"
  shows "getGitHubStats e (Str tok) s =
           (case tryBlock e tok (cacheKeyOf tok) (s\<lparr>trace := trace s @ [CacheGet (cacheKeyOf tok)]\<rparr>) of
              None \<Rightarrow> None
            | Some (Inl err, s') \<Rightarrow> Some (Inl err, s'\<lparr>trace := trace s' @ [ConsoleError err]\<rparr>)
            | Some (Inr result, s') \<Rightarrow> Some (Inr result, s'))"
proof -
  from assms(2) have "cache_get (Date_now e (world s)) (cacheKeyOf tok) (cache s) = (None, cache s)"
    using cache_get_miss[of "Date_now e (world s)" "cacheKeyOf tok" "cache s"]
    by (simp add: cached_def prod_eq_iff)
  with assms(1) show ?thesis
    by (simp add: getGitHubStats_def Let_def)
qed


text \<open>A rejected page ends the pagination loop with its error, whatever was accumulated.\<close>

lemma page_rejected_loop:
  "page_rejected e tok lg cursor s err sf \<Longrightarrow>
   repositoriesLoop e tok lg acc cursor s = Some (Inl err, sf)"
proof (induction arbitrary: acc rule: page_rejected.induct)
  case (this_page cursor s err sf)
  then show ?case
    by (subst repositoriesLoop.simps) simp
next
  case (later_page cursor s page s1 err sf)
  show ?case
    by (subst repositoriesLoop.simps) (simp add: later_page.hyps later_page.IH)
qed

text \<open>A rejected remote call ends the try block with its error.\<close>

lemma tryBlock_rejected:
  assumes "rejected e tok s err sf"
  shows "tryBlock e tok key s = Some (Inl err, sf)"
  using assms
proof cases
  case first_identity
  then show ?thesis by (simp add: tryBlock_def Let_def)
next
  case (contributions u1 s2)
  then show ?thesis by (simp add: tryBlock_def Let_def)
next
  case (second_identity u1 s2 cc s3)
  then show ?thesis by (simp add: tryBlock_def Let_def)
next
  case (listing_page u1 s2 cc s3 u2 s4)
  from page_rejected_loop[OF listing_page(4)]
  have "getAllRepositories e tok (login u2) s4 = Some (Inl err, sf)"
    by (simp add: getAllRepositories_def)
  with listing_page show ?thesis by (simp add: tryBlock_def Let_def)
next
  case (third_identity u1 s2 cc s3 u2 s4 ns s5)
  then show ?thesis by (simp add: tryBlock_def Let_def)
next
  case (fourth_identity u1 s2 cc s3 u2 s4 ns s5 u3 s6)
  then show ?thesis by (simp add: tryBlock_def Let_def)
qed

section \<open>The aggregation\<close>

lemma orZero_Some [simp]: "orZero (Some n) = n"
  by (simp add: orZero_def)

lemma orZero_None [simp]: "orZero None = 0"
  by (simp add: orZero_def)

lemma insort_by_length [simp]: "length (insort_by after x xs) = Suc (length xs)"
  by (induction xs) auto

lemma js_sort_length [simp]: "length (js_sort after xs) = length xs"
  by (induction xs) (auto simp: js_sort_def)

lemma insort_by_mset [simp]: "mset (insort_by after x xs) = add_mset x (mset xs)"
  by (induction xs) auto

lemma js_sort_mset [simp]: "mset (js_sort after xs) = mset xs"
  by (induction xs) (auto simp: js_sort_def)

lemma bucket_update:
  assumes "distinct xs" "k \<in> set xs"
  shows "(\<Sum>d\<leftarrow>xs. orZero ((m(k \<mapsto> orZero (m k) + c)) d)) = (\<Sum>d\<leftarrow>xs. orZero (m d)) + c"
  using assms
proof (induction xs)
  case Nil
  then show ?case by simp
next
  case (Cons x xs)
  show ?case
  proof (cases "x = k")
    case True
    with Cons.prems have "k \<notin> set xs" by simp
    then have "map (\<lambda>d. orZero ((m(k \<mapsto> orZero (m k) + c)) d)) xs = map (\<lambda>d. orZero (m d)) xs"
      by (intro map_cong) auto
    then have "(\<Sum>d\<leftarrow>xs. orZero ((m(k \<mapsto> orZero (m k) + c)) d)) = (\<Sum>d\<leftarrow>xs. orZero (m d))"
      by (rule arg_cong)
    with True show ?thesis by (simp del: fun_upd_apply) simp
  next
    case False
    with Cons show ?thesis by simp
  qed
qed

lemma daysOrder_distinct: "distinct daysOrder"
  by (simp add: daysOrder_def)

lemma processDay_total:
  assumes "contributionCount day > 0 \<longrightarrow> toLocaleWeekday e (date day) \<in> set daysOrder"
  shows "bucketTotal (fst (processDay e day acc)) = bucketTotal (fst acc) + contributionCount day"
  using assms bucket_update[OF daysOrder_distinct]
  by (cases acc) (auto simp: processDay_def bucketTotal_def Let_def)

lemma processWeek_total:
  assumes "\<forall>day \<in> set week. contributionCount day > 0 \<longrightarrow> toLocaleWeekday e (date day) \<in> set daysOrder"
  shows "bucketTotal (fst (fold (processDay e) week acc))
           = bucketTotal (fst acc) + sum_list (map contributionCount week)"
  using assms
proof (induction week arbitrary: acc)
  case Nil
  then show ?case by simp
next
  case (Cons day week)
  then show ?case
    by (simp add: processDay_total)
qed

lemma processWeeks_total:
  assumes "\<forall>day \<in> set (concat wks). contributionCount day > 0 \<longrightarrow> toLocaleWeekday e (date day) \<in> set daysOrder"
  shows "bucketTotal (fst (fold (\<lambda>week acc. fold (processDay e) week acc) wks acc))
           = bucketTotal (fst acc) + sum_list (map contributionCount (concat wks))"
  using assms
proof (induction wks arbitrary: acc)
  case Nil
  then show ?case by simp
next
  case (Cons week wks)
  then show ?case
    by (simp add: processWeek_total)
qed

lemma processCalendar_total:
  assumes "\<forall>day \<in> set (concat wks). contributionCount day > 0 \<longrightarrow> toLocaleWeekday e (date day) \<in> set daysOrder"
  shows "bucketTotal (fst (processCalendar e wks)) = sum_list (map contributionCount (concat wks))"
  using processWeeks_total[OF assms, of "(Map.empty, [])"]
  by (simp add: processCalendar_def bucketTotal_def)

lemma contributionsByDayOf_days: "map fst (contributionsByDayOf m) = daysOrder"
  by (simp add: contributionsByDayOf_def comp_def)

lemma contributionsByDayOf_total: "sum_list (map snd (contributionsByDayOf m)) = bucketTotal m"
  by (simp add: contributionsByDayOf_def bucketTotal_def comp_def)


text \<open>The fields of the assembled report.\<close>

lemma buildResult_fields:
  "repos (buildResult e cc ns u3 u4) = js_sort commitsAfter (map toRepoStats ns)"
  "totalRepos (buildResult e cc ns u3 u4) = length ns"
  "totalCommits (buildResult e cc ns u3 u4) = totalCommitContributions cc"
  "totalComments (buildResult e cc ns u3 u4) = totalIssueContributions cc"
  "totalReviews (buildResult e cc ns u3 u4) = totalPullRequestReviewContributions cc"
  "contributionsByDay (buildResult e cc ns u3 u4) = contributionsByDayOf (fst (processCalendar e (weeks cc)))"
  "contributionsByType (buildResult e cc ns u3 u4) =
     [(''Commits'', totalCommitContributions cc), (''Comments'', totalIssueContributions cc),
      (''Reviews'', totalPullRequestReviewContributions cc)]"
  "languages (buildResult e cc ns u3 u4) = languagesOf (map toRepoStats ns)"
  by (simp_all add: buildResult_def Let_def split: prod.splits)

lemma buildResult_typeBreakdownOk: "typeBreakdownOk (buildResult e cc ns u3 u4)"
  by (simp add: typeBreakdownOk_def buildResult_fields)

text \<open>What a day adds to the bucket of a weekday, and what a calendar adds up to there.\<close>

lemma processDay_bucket:
  "orZero (fst (processDay e day acc) k)
     = orZero (fst acc k)
       + (if 0 < contributionCount day \<and> toLocaleWeekday e (date day) = k
          then contributionCount day else 0)"
  by (cases acc) (simp add: processDay_def Let_def)

lemma processWeek_bucket:
  "orZero (fst (fold (processDay e) week acc) k)
     = orZero (fst acc k)
       + sum_list (map contributionCount
           (filter (\<lambda>day. 0 < contributionCount day \<and> toLocaleWeekday e (date day) = k) week))"
  by (induction week arbitrary: acc) (simp_all add: processDay_bucket)

lemma processWeeks_bucket:
  "orZero (fst (fold (\<lambda>week acc. fold (processDay e) week acc) wks acc) k)
     = orZero (fst acc k)
       + sum_list (map contributionCount
           (filter (\<lambda>day. 0 < contributionCount day \<and> toLocaleWeekday e (date day) = k)
              (concat wks)))"
  by (induction wks arbitrary: acc) (simp_all add: processWeek_bucket)

lemma processCalendar_bucket:
  "orZero (fst (processCalendar e wks) k)
     = sum_list (map contributionCount
         (filter (\<lambda>day. 0 < contributionCount day \<and> toLocaleWeekday e (date day) = k)
            (concat wks)))"
  using processWeeks_bucket[of e wks "(Map.empty, [])" k]
  by (simp add: processCalendar_def)

section \<open>The language shares\<close>

lemma foldl_add_nat: "foldl (\<lambda>acc cnt. acc + cnt) (a::nat) xs = a + sum_list xs"
  by (induction xs arbitrary: a) auto

lemma totalLanguageCommitsOf_sum: "totalLanguageCommitsOf ls = sum_list (map snd ls)"
  by (simp add: totalLanguageCommitsOf_def foldl_add_nat)

lemma setProperty_sum:
  "sum_list (map snd (setProperty ls k (orZero (map_of ls k) + c))) = sum_list (map snd ls) + c"
  by (induction ls) auto

lemma addLanguage_sum:
  "sum_list (map snd (addLanguage repo ls))
     = sum_list (map snd ls) + (if hasLanguage repo then commits repo else 0)"
  by (auto simp: addLanguage_def hasLanguage_def setProperty_sum split: option.splits)

lemma fold_addLanguage_sum:
  "sum_list (map snd (fold addLanguage rs ls))
     = sum_list (map snd ls) + sum_list (map commits (filter hasLanguage rs))"
  by (induction rs arbitrary: ls) (auto simp: addLanguage_sum)

text \<open>The total is the sum of the commits of the repositories with a language.\<close>

lemma totalLanguageCommits_eq:
  "totalLanguageCommitsOf (languageStatsOf rs) = sum_list (map commits (filter hasLanguage rs))"
  by (simp add: totalLanguageCommitsOf_sum languageStatsOf_def fold_addLanguage_sum)

text \<open>Repositories without a language leave the dictionary as it is.\<close>

lemma addLanguage_without: "\<not> hasLanguage repo \<Longrightarrow> addLanguage repo ls = ls"
  by (auto simp: addLanguage_def hasLanguage_def split: option.splits)

lemma fold_addLanguage_filter:
  "fold addLanguage rs ls = fold addLanguage (filter hasLanguage rs) ls"
  by (induction rs arbitrary: ls) (auto simp: addLanguage_without)

lemma languagesOf_ignores_without_language:
  "languagesOf rs = languagesOf (filter hasLanguage rs)"
  using fold_addLanguage_filter[of rs "[]"]
  by (simp add: languagesOf_def languageStatsOf_def)

lemma languagesOf_empty: "\<forall>r \<in> set rs. \<not> hasLanguage r \<Longrightarrow> languagesOf rs = []"
proof -
  assume "\<forall>r \<in> set rs. \<not> hasLanguage r"
  then have "filter hasLanguage rs = []" by (simp add: filter_empty_conv)
  with languagesOf_ignores_without_language[of rs] show ?thesis
    by (simp add: languagesOf_def languageStatsOf_def js_sort_def)
qed

lemma js_sum_Numbers: "foldl js_add (Number a) (map Number xs) = Number (a + sum_list xs)"
  by (induction xs arbitrary: a) auto

lemma js_sum_finite:
  assumes "\<forall>y \<in> set ys. \<exists>x. y = Number x"
  shows "js_sum ys = Number (sum_list (map numberOf ys))"
proof -
  from assms have "map Number (map numberOf ys) = ys"
    by (induction ys) (auto simp: numberOf_def)
  with js_sum_Numbers[of 0 "map numberOf ys"] show ?thesis
    by (simp add: js_sum_def)
qed

lemma sum_list_as_mset: "sum_list (map g xs) = sum_mset (image_mset g (mset xs))"
  by (induction xs) auto

lemma sum_list_shares:
  "sum_list (map (\<lambda>p. real (snd p) / T * 100) ls) = real (sum_list (map snd ls)) / T * 100"
  by (induction ls) (auto simp: add_divide_distrib distrib_right)

text \<open>
  With at least one commit among the repositories with a language, the shares are
  finite and add up to 100 (in exact arithmetic).
\<close>

lemma language_shares_sum_100:
  assumes pos: "0 < sum_list (map commits (filter hasLanguage rs))"
  shows "js_sum (map snd (languagesOf rs)) = Number 100"
proof -
  define ls where "ls = languageStatsOf rs"
  define T where "T = totalLanguageCommitsOf ls"
  define f where "f = (\<lambda>p :: string \<times> nat. (fst p, percentageOf (snd p) T))"
  from pos have T: "0 < T" "T = sum_list (map snd ls)"
    by (simp_all add: T_def ls_def totalLanguageCommits_eq totalLanguageCommitsOf_sum[symmetric])
  have l: "languagesOf rs = js_sort percentageAfter (map f ls)"
    by (simp add: languagesOf_def ls_def T_def f_def Let_def case_prod_unfold)
  have fin: "snd (f p) = Number (real (snd p) / real T * 100)" for p
    using T(1) by (simp add: f_def percentageOf_def)
  have m: "mset (map snd (languagesOf rs)) = mset (map (snd \<circ> f) ls)"
    unfolding l by (simp add: multiset.map_comp)
  then have "set (map snd (languagesOf rs)) = set (map (snd \<circ> f) ls)"
    by (rule mset_eq_setD)
  then have "\<forall>y \<in> set (map snd (languagesOf rs)). \<exists>x. y = Number x"
    using fin by auto
  then have "js_sum (map snd (languagesOf rs)) = Number (sum_list (map numberOf (map snd (languagesOf rs))))"
    by (rule js_sum_finite)
  also have "sum_list (map numberOf (map snd (languagesOf rs)))
               = sum_mset (image_mset numberOf (mset (map snd (languagesOf rs))))"
    by (rule sum_list_as_mset)
  also have "\<dots> = sum_mset (image_mset numberOf (mset (map (snd \<circ> f) ls)))"
    by (simp only: m)
  also have "\<dots> = sum_list (map numberOf (map (snd \<circ> f) ls))"
    by (rule sum_list_as_mset[symmetric])
  also have "\<dots> = sum_list (map (\<lambda>p. real (snd p) / real T * 100) ls)"
    by (simp add: fin numberOf_def comp_def)
  also have "\<dots> = real (sum_list (map snd ls)) / real T * 100"
    by (rule sum_list_shares)
  also have "\<dots> = real T / real T * 100"
    by (simp only: T(2)[symmetric])
  also have "\<dots> = 100"
    using T(1) by simp
  finally show ?thesis .
qed

section \<open>The throttle\<close>

text \<open>
  One call of \<^verbatim>\<open>rateLimit\<close>, run to its end with a timer that does not fire early:
  it returns no earlier than 1000 ms after the \<^verbatim>\<open>lastCall\<close> it read, and it leaves
  the time of its return in \<^verbatim>\<open>lastCall\<close>.
\<close>

lemma rateLimit_waits:
  assumes timer: "\<And>d w. Date_now e w + d \<le> Date_now e (setTimeout e d w)"
  shows "lastCall (rateLimit e s) = Date_now e (world (rateLimit e s))
       \<and> lastCall s + minInterval \<le> lastCall (rateLimit e s)"
proof (cases "Date_now e (world s) - lastCall s < minInterval")
  case True
  with timer[of "world s" "minInterval - (Date_now e (world s) - lastCall s)"]
  show ?thesis by (simp add: rateLimit_def Let_def)
next
  case False
  then show ?thesis by (simp add: rateLimit_def Let_def)
qed

text \<open>
  In the event loop a call that enters gets through at once only when 1000 ms have
  passed since \<^verbatim>\<open>lastCall\<close>; otherwise its timer is due 1000 ms after the
  \<^verbatim>\<open>lastCall\<close> it read, and \<^verbatim>\<open>lastCall\<close> stays as it is until the call resumes.
\<close>

lemma call_step:
  "loop_step (Call i) l =
     Some (if clock l - limiter_lastCall l < minInterval
           then l\<lparr>timers := (i, limiter_lastCall l + minInterval) # timers l\<rparr>
           else l\<lparr>limiter_lastCall := clock l, started := started l @ [(i, clock l)]\<rparr>)"
  by (simp add: Let_def)

text \<open>
  A call that runs alone through the event loop (enter, wait for the timer, resume)
  leaves \<^verbatim>\<open>lastCall\<close> as \<open>rateLimit\<close> does on the exact clock.
\<close>

lemma lone_call_is_rateLimit:
  assumes "map_of (timers l) i = None"
  shows "map_option limiter_lastCall
           (loop_run (Call i # (if clock l - limiter_lastCall l < minInterval
                                then [Wait (minInterval - (clock l - limiter_lastCall l)), Resume i]
                                else [])) l)
         = Some (lastCall (rateLimit exact_clock
                   \<lparr>cache = c, lastCall = limiter_lastCall l, world = clock l, trace = tr\<rparr>))"
  using assms
  by (simp add: Let_def rateLimit_def exact_clock_def minInterval_def)

section \<open>The fixtures, evaluated\<close>

lemma fixture_env_sel:
  "Date_now (fixture_env cc pages) = (\<lambda>w. int (fst w))"
  "setTimeout (fixture_env cc pages) = (\<lambda>d w. (fst w + nat d, snd w))"
  "users_getAuthenticated (fixture_env cc pages) = (\<lambda>tok w. (Inr fixture_user, (fst w + 20, snd w)))"
  "graphql_contributions (fixture_env cc pages) = (\<lambda>tok lg w. (Inr cc, (fst w + 50, snd w)))"
  "graphql_repositories (fixture_env cc pages) = (\<lambda>tok lg cursor w.
         (if snd w < length pages then pages ! snd w else Inl (RequestError 404 ''Not Found''),
          (fst w + 30, Suc (snd w))))"
  "toLocaleWeekday (fixture_env cc pages) = fixture_weekday"
  by (simp_all add: fixture_env_def)

lemma fixture_user_login: "login fixture_user = ''octocat''"
  by (simp add: fixture_user_def)

lemma fixture_build:
  "buildResult (fixture_env cc pages) fixture_calendar [repoC, repoA, repoB] fixture_user fixture_user
     = fixture_report"
  by (simp add: buildResult_def fixture_report_def processCalendar_def processDay_def
      fixture_calendar_def fixture_env_sel fixture_weekday_def orZero_def contributionsByDayOf_def
      daysOrder_def languagesOf_def languageStatsOf_def addLanguage_def totalLanguageCommitsOf_def
      percentageOf_def js_sort_def commitsAfter_def percentageAfter_def toRepoStats_def repoA_def
      repoB_def repoC_def historyTotalCount_def fixture_user_def)

lemma fixture_lister:
  "getAllRepositories (fixture_env cc fixture_pages) tok lg
     \<lparr>cache = c, lastCall = l, world = (t, 0), trace = tr\<rparr>
   = Some (Inr [repoC, repoA, repoB],
       \<lparr>cache = c, lastCall = l, world = (t + 60, 2),
        trace = tr @ [RepositoriesQuery lg None (Inr fixture_page1),
                      RepositoriesQuery lg (Some ''c1'') (Inr fixture_page2)]\<rparr>)"
  by (simp add: getAllRepositories_def repositoriesLoop.simps repositoriesQuery_def fixture_env_sel
      fixture_pages_def fixture_page1_def fixture_page2_def)

lemma failing_lister:
  "getAllRepositories (fixture_env cc failing_pages) tok lg
     \<lparr>cache = c, lastCall = l, world = (t, 0), trace = tr\<rparr>
   = Some (Inl badGateway,
       \<lparr>cache = c, lastCall = l, world = (t + 60, 2),
        trace = tr @ [RepositoriesQuery lg None (Inr fixture_page1),
                      RepositoriesQuery lg (Some ''c1'') (Inl badGateway)]\<rparr>)"
  by (simp add: getAllRepositories_def repositoriesLoop.simps repositoriesQuery_def fixture_env_sel
      failing_pages_def fixture_page1_def)

lemma branchless_lister:
  "getAllRepositories (fixture_env cc branchless_pages) tok lg
     \<lparr>cache = c, lastCall = l, world = (t, 0), trace = tr\<rparr>
   = Some (Inr [repoD],
       \<lparr>cache = c, lastCall = l, world = (t + 30, 1),
        trace = tr @ [RepositoriesQuery lg None
                        (Inr \<lparr>nodes = [repoD], hasNextPage = False, endCursor = None\<rparr>)]\<rparr>)"
  by (simp add: getAllRepositories_def repositoriesLoop.simps repositoriesQuery_def fixture_env_sel
      branchless_pages_def)

lemma branchless_languages:
  "languages (buildResult e cc [repoD] u3 u4) = [(''Go'', NaN)]"
  by (simp add: buildResult_fields languagesOf_def languageStatsOf_def addLanguage_def
      totalLanguageCommitsOf_def percentageOf_def js_sort_def toRepoStats_def repoD_def
      historyTotalCount_def)

lemmas run_defs = getGitHubStats_def cacheKeyOf_def cache_get_def fixture_state_def tryBlock_def
  rateLimit_def minInterval_def getAuthenticated_def contributionsQuery_def fixture_env_sel
  cache_set_def Let_def fixture_user_login

lemma fixture_run:
  "getGitHubStats (fixture_env fixture_calendar fixture_pages) (Str ''t'') fixture_state
     = Some (Inr fixture_report, fixture_final)"
  by (simp add: run_defs fixture_lister fixture_build fixture_final_def)

lemma failing_run:
  "getGitHubStats (fixture_env fixture_calendar failing_pages) (Str ''t'') fixture_state
     = Some (Inl badGateway, failing_final)"
  by (simp add: run_defs failing_lister failing_final_def)

lemma fixture_miss: "cached (fixture_env cc pages) ''t'' fixture_state = None"
  by (simp add: cached_def cache_get_def fixture_state_def)

lemma fixture_new_events:
  "new_events fixture_state fixture_final =
     [CacheGet ''stats-t'',
      GetAuthenticated (Inr fixture_user),
      ContributionsQuery ''octocat'' (Inr fixture_calendar),
      GetAuthenticated (Inr fixture_user),
      RepositoriesQuery ''octocat'' None (Inr fixture_page1),
      RepositoriesQuery ''octocat'' (Some ''c1'') (Inr fixture_page2),
      GetAuthenticated (Inr fixture_user),
      GetAuthenticated (Inr fixture_user),
      CacheSet ''stats-t'']"
  by (simp add: new_events_def fixture_state_def fixture_final_def)

lemma failing_new_events:
  "new_events fixture_state failing_final =
     [CacheGet ''stats-t'',
      GetAuthenticated (Inr fixture_user),
      ContributionsQuery ''octocat'' (Inr fixture_calendar),
      GetAuthenticated (Inr fixture_user),
      RepositoriesQuery ''octocat'' None (Inr fixture_page1),
      RepositoriesQuery ''octocat'' (Some ''c1'') (Inl badGateway),
      ConsoleError badGateway]"
  by (simp add: new_events_def fixture_state_def failing_final_def)

lemma fixture_listed: "listed (new_events fixture_state fixture_final) = [repoC, repoA, repoB]"
  by (simp add: fixture_new_events fixture_page1_def fixture_page2_def)

section \<open>The claims\<close>

text \<open>
  C1. After a call that returned a report, the report is in the cache under the key of
  the token, with a time of insertion (the end of that call, when the call was a cache
  miss). A second call with the same token, made in any state whose cache still holds
  that entry (it was not evicted; other entries may have come or gone) and whose clock
  is less than 5 minutes past the insertion, returns the same report; the one event it
  adds is the cache read, so it makes no remote call, and it leaves the world and the
  throttle as they were.
\<close>

theorem second_call_within_ttl_hits_cache:
  assumes "getGitHubStats e (Str tok) s = Some (Inr r, s1)"
  shows "\<exists>t. map_of (cache s1) (cacheKeyOf tok) = Some (r, t)
           \<and> (cached e tok s = None \<longrightarrow> t = Date_now e (world s1))
           \<and> cache_ttl = 5 * 60 * 1000
           \<and> (\<forall>s2. map_of (cache s2) (cacheKeyOf tok) = Some (r, t)
                    \<and> Date_now e (world s2) < t + cache_ttl \<longrightarrow>
                 (\<exists>s3. getGitHubStats e (Str tok) s2 = Some (Inr r, s3)
                     \<and> new_events s2 s3 = [CacheGet (cacheKeyOf tok)]
                     \<and> filter is_remote (new_events s2 s3) = []
                     \<and> world s3 = world s2 \<and> lastCall s3 = lastCall s2))"
proof -
  from success_cached[OF assms] obtain t where
    t: "map_of (cache s1) (cacheKeyOf tok) = Some (r, t)"
       "cached e tok s = None \<longrightarrow> t = Date_now e (world s1)"
    by (elim exE conjE)
  have "\<exists>s3. getGitHubStats e (Str tok) s2 = Some (Inr r, s3)
            \<and> new_events s2 s3 = [CacheGet (cacheKeyOf tok)]
            \<and> filter is_remote (new_events s2 s3) = []
            \<and> world s3 = world s2 \<and> lastCall s3 = lastCall s2"
    if "map_of (cache s2) (cacheKeyOf tok) = Some (r, t)"
      "Date_now e (world s2) < t + cache_ttl" for s2
    using that success_token[OF assms]
    by (simp add: getGitHubStats_def Let_def cache_get_live new_events_def)
  then have hit: "\<forall>s2. map_of (cache s2) (cacheKeyOf tok) = Some (r, t)
                    \<and> Date_now e (world s2) < t + cache_ttl \<longrightarrow>
                 (\<exists>s3. getGitHubStats e (Str tok) s2 = Some (Inr r, s3)
                     \<and> new_events s2 s3 = [CacheGet (cacheKeyOf tok)]
                     \<and> filter is_remote (new_events s2 s3) = []
                     \<and> world s3 = world s2 \<and> lastCall s3 = lastCall s2)"
    by (intro allI impI) (elim conjE)
  have ttl: "cache_ttl = 5 * 60 * 1000"
    by (simp add: cache_ttl_def)
  show ?thesis
    by (rule exI[of _ t]) (intro conjI t ttl hit)
qed

theorem second_call_within_ttl_hits_cache_witness:
  "getGitHubStats (fixture_env fixture_calendar fixture_pages) (Str ''t'') fixture_state
     = Some (Inr fixture_report, fixture_final)
   \<and> cache later_state \<noteq> cache fixture_final
   \<and> map_of (cache later_state) ''stats-t'' = Some (fixture_report, 1700000000190)
   \<and> Date_now (fixture_env fixture_calendar fixture_pages) (world later_state)
        < 1700000000190 + cache_ttl
   \<and> (\<exists>s3. getGitHubStats (fixture_env fixture_calendar fixture_pages) (Str ''t'') later_state
              = Some (Inr fixture_report, s3)
          \<and> new_events later_state s3 = [CacheGet ''stats-t''])"
proof -
  let ?e = "fixture_env fixture_calendar fixture_pages"
  from second_call_within_ttl_hits_cache[OF fixture_run] obtain t where
    t: "map_of (cache fixture_final) (cacheKeyOf ''t'') = Some (fixture_report, t)"
    and hit: "\<forall>s2. map_of (cache s2) (cacheKeyOf ''t'') = Some (fixture_report, t)
                 \<and> Date_now ?e (world s2) < t + cache_ttl \<longrightarrow>
         (\<exists>s3. getGitHubStats ?e (Str ''t'') s2 = Some (Inr fixture_report, s3)
             \<and> new_events s2 s3 = [CacheGet (cacheKeyOf ''t'')]
             \<and> filter is_remote (new_events s2 s3) = []
             \<and> world s3 = world s2 \<and> lastCall s3 = lastCall s2)"
    by (elim exE conjE)
  from t have t': "t = 1700000000190"
    by (simp add: fixture_final_def cacheKeyOf_def)
  have differs: "cache later_state \<noteq> cache fixture_final"
    by (simp add: later_state_def fixture_final_def)
  have entry: "map_of (cache later_state) ''stats-t'' = Some (fixture_report, 1700000000190)"
    by (simp add: later_state_def fixture_final_def)
  have clock: "Date_now ?e (world later_state) < 1700000000190 + cache_ttl"
    by (simp add: later_state_def fixture_env_sel cache_ttl_def)
  have pre: "map_of (cache later_state) (cacheKeyOf ''t'') = Some (fixture_report, t)
      \<and> Date_now ?e (world later_state) < t + cache_ttl"
    unfolding t' using entry clock by (simp add: cacheKeyOf_def)
  from hit[rule_format, OF pre] obtain s3 where
    "getGitHubStats ?e (Str ''t'') later_state = Some (Inr fixture_report, s3)"
    "new_events later_state s3 = [CacheGet (cacheKeyOf ''t'')]"
    by (elim exE conjE)
  then have "\<exists>s3. getGitHubStats ?e (Str ''t'') later_state = Some (Inr fixture_report, s3)
      \<and> new_events later_state s3 = [CacheGet ''stats-t'']"
    by (intro exI[of _ s3]) (simp add: cacheKeyOf_def)
  with fixture_run differs entry clock show ?thesis
    by (intro conjI)
qed

text \<open>
  C2. The shares add up to 100 when a repository with a language has a commit
  (\<open>language_shares_sum_100\<close>), the list is empty when no repository has a language
  (\<open>languagesOf_empty\<close>), and repositories without a language do not enter the
  computation (\<open>languagesOf_ignores_without_language\<close>). The claim also covers the
  case left: repositories with a language, none of them with a commit. There
  \<^verbatim>\<open>totalLanguageCommits\<close> is 0 and every share is \<^verbatim>\<open>0 / 0 * 100\<close>. On the listing of
  one repository in Go without a default branch the call returns its report with the
  single share NaN, and the sum of the shares is NaN, not 100.
\<close>

theorem language_shares_nan_when_no_commits:
  "map_option (\<lambda>(res, s'). map_sum id languages res)
     (getGitHubStats (fixture_env fixture_calendar branchless_pages) (Str ''t'') fixture_state)
     = Some (Inr [(''Go'', NaN)])
   \<and> js_sum (map snd [(''Go'', NaN)]) = NaN"
  by (simp add: run_defs branchless_lister branchless_languages js_sum_def)

text \<open>
  C3. In a successful cache-miss run the listing queries form one complete pagination
  (from no cursor, each page asked with the cursor of the page before, up to the first
  page that announces no next page), and \<open>totalRepos\<close> is the number of repositories on
  those pages: the private ones and the public ones together, none filtered out.
\<close>

theorem totalRepos_counts_all_listed:
  assumes "getGitHubStats e (Str tok) s = Some (Inr r, s')"
    and "cached e tok s = None"
  shows "paginated None (filter is_page_query (new_events s s'))
     \<and> totalRepos r = length (listed (new_events s s'))
     \<and> totalRepos r = length (filter node_isPrivate (listed (new_events s s')))
                      + length (filter (\<lambda>n. \<not> node_isPrivate n) (listed (new_events s s')))"
proof -
  from getGitHubStats_miss[OF assms(1) success_token[OF assms(1)] assms(2)]
  obtain cc u3 u4 where
    p: "paginated None (filter is_page_query (new_events s s'))"
    and r: "r = buildResult e cc (listed (new_events s s')) u3 u4"
    by (simp, elim exE conjE)
  from r have "totalRepos r = length (listed (new_events s s'))"
    by (simp add: buildResult_fields)
  with p show ?thesis
    by (simp add: sum_length_filter_compl)
qed

theorem totalRepos_counts_all_listed_witness:
  "getGitHubStats (fixture_env fixture_calendar fixture_pages) (Str ''t'') fixture_state
     = Some (Inr fixture_report, fixture_final)
   \<and> cached (fixture_env fixture_calendar fixture_pages) ''t'' fixture_state = None
   \<and> totalRepos fixture_report = 3
   \<and> length (filter node_isPrivate (listed (new_events fixture_state fixture_final))) = 2"
proof -
  from totalRepos_counts_all_listed[OF fixture_run fixture_miss]
  have "totalRepos fixture_report = length (listed (new_events fixture_state fixture_final))"
    by (elim conjE)
  then have "totalRepos fixture_report = 3"
    by (simp add: fixture_listed)
  moreover have "length (filter node_isPrivate (listed (new_events fixture_state fixture_final))) = 2"
    by (simp add: fixture_listed repoA_def repoB_def repoC_def)
  ultimately show ?thesis
    using fixture_run fixture_miss by (intro conjI)
qed




text \<open>
  C5. For an absent, a null and an empty-string credential \<^verbatim>\<open>getGitHubStats\<close> returns at
  once with the missing-credential error and leaves the state as it was: the cache is
  neither read nor written and no remote call is made (the trace is unchanged).
\<close>

theorem missing_credential_fails_immediately:
  "getGitHubStats e Undefined s = Some (Inl noToken, s)
   \<and> getGitHubStats e Null s = Some (Inl noToken, s)
   \<and> getGitHubStats e (Str []) s = Some (Inl noToken, s)
   \<and> noToken = Error ''No access token provided''"
  by (simp add: getGitHubStats_def noToken_def)

text \<open>
  C6. In a cache-miss run, when a remote call is rejected with an error (an identity
  call, the contributions query or a page of the listing, the calls before it
  answered), \<^verbatim>\<open>getGitHubStats\<close> returns, and what it returns is that same error, not
  a report. The state it leaves is the one the rejected call left, with the error
  logged: the cache is what it was before the run, the run has no \<^verbatim>\<open>cache.set\<close>, and
  the rejected call is the only one.
\<close>

theorem remote_failure_propagates_uncached:
  assumes tok: "tok \<noteq> []"
    and miss: "cached e tok s = None"
    and rej: "rejected e tok (s\<lparr>trace := trace s @ [CacheGet (cacheKeyOf tok)]\<rparr>) err sf"
  shows "getGitHubStats e (Str tok) s = Some (Inl err, sf\<lparr>trace := trace sf @ [ConsoleError err]\<rparr>)
     \<and> cache sf = cache s
     \<and> filter is_cache_set (new_events s (sf\<lparr>trace := trace sf @ [ConsoleError err]\<rparr>)) = []
     \<and> failures (new_events s (sf\<lparr>trace := trace sf @ [ConsoleError err]\<rparr>)) = [err]"
proof -
  let ?s' = "sf\<lparr>trace := trace sf @ [ConsoleError err]\<rparr>"
  have run: "getGitHubStats e (Str tok) s = Some (Inl err, ?s')"
    unfolding getGitHubStats_miss_unfold[OF tok miss]
    by (simp add: tryBlock_rejected[OF rej])
  from getGitHubStats_miss[OF run tok miss]
  have "failures (new_events s ?s') = [err]" "cache ?s' = cache s"
    "filter is_cache_set (new_events s ?s') = []"
    by simp_all
  with run show ?thesis
    by simp
qed

theorem remote_failure_propagates_uncached_witness:
  "getGitHubStats (fixture_env fixture_calendar failing_pages) (Str ''t'') fixture_state
     = Some (Inl badGateway, failing_final)
   \<and> cached (fixture_env fixture_calendar failing_pages) ''t'' fixture_state = None
   \<and> cache failing_final = cache fixture_state
   \<and> filter is_cache_set (new_events fixture_state failing_final) = []"
proof -
  let ?e = "fixture_env fixture_calendar failing_pages"
  let ?s0 = "fixture_state\<lparr>trace := trace fixture_state @ [CacheGet (cacheKeyOf ''t'')]\<rparr>"
  let ?s1 = "rateLimit ?e ?s0"
  let ?s2 = "snd (getAuthenticated ?e ''t'' ?s1)"
  let ?s3 = "snd (contributionsQuery ?e ''t'' (login fixture_user) ?s2)"
  let ?s4 = "snd (getAuthenticated ?e ''t'' ?s3)"
  let ?s4a = "snd (repositoriesQuery ?e ''t'' (login fixture_user) None ?s4)"
  let ?sf = "snd (repositoriesQuery ?e ''t'' (login fixture_user) (endCursor fixture_page1) ?s4a)"
  have tok: "''t'' \<noteq> []"
    by simp
  have a1: "getAuthenticated ?e ''t'' ?s1 = (Inr fixture_user, ?s2)"
    by (simp add: getAuthenticated_def fixture_env_sel)
  have a2: "contributionsQuery ?e ''t'' (login fixture_user) ?s2 = (Inr fixture_calendar, ?s3)"
    by (simp add: contributionsQuery_def fixture_env_sel)
  have a3: "getAuthenticated ?e ''t'' ?s3 = (Inr fixture_user, ?s4)"
    by (simp add: getAuthenticated_def fixture_env_sel)
  have q1: "repositoriesQuery ?e ''t'' (login fixture_user) None ?s4 = (Inr fixture_page1, ?s4a)"
    by (simp add: run_defs repositoriesQuery_def failing_pages_def)
  have q2: "repositoriesQuery ?e ''t'' (login fixture_user) (endCursor fixture_page1) ?s4a
              = (Inl badGateway, ?sf)"
    by (simp add: run_defs repositoriesQuery_def failing_pages_def)
  have more: "hasNextPage fixture_page1"
    by (simp add: fixture_page1_def)
  have "page_rejected ?e ''t'' (login fixture_user) None ?s4 badGateway ?sf"
    by (rule later_page[OF q1 more]) (rule this_page[OF q2])
  then have rej: "rejected ?e ''t'' ?s0 badGateway ?sf"
    by (rule listing_page[OF a1 a2 a3])
  have sf: "?sf\<lparr>trace := trace ?sf @ [ConsoleError badGateway]\<rparr> = failing_final"
    by (simp add: run_defs repositoriesQuery_def failing_pages_def failing_final_def
        fixture_page1_def)
  note c6 = remote_failure_propagates_uncached[OF tok fixture_miss rej, unfolded sf]
  have "getGitHubStats ?e (Str ''t'') fixture_state = Some (Inl badGateway, failing_final)"
    using c6 by (elim conjE)
  moreover have "filter is_cache_set (new_events fixture_state failing_final) = []"
    using c6 by (elim conjE)
  moreover have "cache failing_final = cache fixture_state"
    by (simp add: failing_final_def fixture_state_def)
  ultimately show ?thesis
    using fixture_miss by (intro conjI)
qed

text \<open>
  C7. One call of \<^verbatim>\<open>rateLimit\<close> returns no earlier than 1000 ms after the
  \<^verbatim>\<open>lastCall\<close> it read and then sets \<^verbatim>\<open>lastCall\<close> (\<open>rateLimit_waits\<close>,
  \<open>call_step\<close>). The spacing of the remote calls of two calls does not follow: a call
  that waits leaves \<^verbatim>\<open>lastCall\<close> as it is until its timer fires, so a call that
  enters in the meantime computes its delay from the same \<^verbatim>\<open>lastCall\<close>. In a fresh
  process, with a first call at some time, a second 100 ms and a third 200 ms later,
  the second and the third both get through 1000 ms after the first: their remote
  calls start at the same time, not 1000 ms apart.
\<close>

theorem overlapping_calls_start_together:
  "map_option started (loop_run overlapping_calls fresh_loop)
     = Some [(0, 1700000000000), (1, 1700000001000), (2, 1700000001000)]"
  by (simp add: overlapping_calls_def fresh_loop_def minInterval_def)

text \<open>
  C8 as stated: exactly three identity calls in a successful cache-miss run. On the
  fixture the run is a cache miss, returns its report, and the trace holds four.
\<close>

theorem three_identity_calls_counterexample:
  "getGitHubStats (fixture_env fixture_calendar fixture_pages) (Str ''t'') fixture_state
     = Some (Inr fixture_report, fixture_final)
   \<and> cached (fixture_env fixture_calendar fixture_pages) ''t'' fixture_state = None
   \<and> length (filter is_identity_call (new_events fixture_state fixture_final)) \<noteq> 3"
  by (simp add: fixture_run fixture_miss fixture_new_events)

text \<open>
  C8, amended. A successful cache-miss run of \<^verbatim>\<open>getGitHubStats\<close> issues exactly four
  identity calls (\<^verbatim>\<open>octokit.users.getAuthenticated()\<close>): one inside the contributions
  query string, one for the lister's login, and two inside the object literal, for
  \<^verbatim>\<open>login\<close> and for \<^verbatim>\<open>avatarUrl\<close>.
\<close>

theorem four_identity_calls:
  assumes "getGitHubStats e (Str tok) s = Some (Inr r, s')"
    and "cached e tok s = None"
  shows "length (filter is_identity_call (new_events s s')) = 4"
  using getGitHubStats_miss[OF assms(1) success_token[OF assms(1)] assms(2)]
  by simp

theorem four_identity_calls_witness:
  "getGitHubStats (fixture_env fixture_calendar fixture_pages) (Str ''t'') fixture_state
     = Some (Inr fixture_report, fixture_final)
   \<and> cached (fixture_env fixture_calendar fixture_pages) ''t'' fixture_state = None
   \<and> length (filter is_identity_call (new_events fixture_state fixture_final)) = 4"
  using four_identity_calls[OF fixture_run fixture_miss] fixture_run fixture_miss
  by (intro conjI)

text \<open>
  C9. Every report that \<^verbatim>\<open>getGitHubStats\<close> returns has the breakdown by type of exactly
  three entries, Commits, Comments, Reviews in this order, with the counts
  \<open>totalCommits\<close>, \<open>totalComments\<close> and \<open>totalReviews\<close> of the same report. A report
  comes fresh from the aggregation or out of the cache, so the property is stated as
  an invariant: when the reports in the cache have it (the cache starts empty), the
  returned report has it and so have the reports in the cache afterwards.
\<close>

theorem type_breakdown_matches_totals:
  assumes "getGitHubStats e a s = Some (Inr r, s')"
    and "list_all (\<lambda>entry. typeBreakdownOk (fst (snd entry))) (cache s)"
  shows "contributionsByType r =
           [(''Commits'', totalCommits r), (''Comments'', totalComments r), (''Reviews'', totalReviews r)]
       \<and> list_all (\<lambda>entry. typeBreakdownOk (fst (snd entry))) (cache s')"
proof -
  from assms(1) obtain tok where a: "a = Str tok" and tok: "tok \<noteq> []"
    by (cases a) (auto simp: getGitHubStats_def split: if_splits)
  have "typeBreakdownOk r \<and> list_all (\<lambda>entry. typeBreakdownOk (fst (snd entry))) (cache s')"
  proof (cases "cached e tok s")
    case None
    from getGitHubStats_miss[OF assms(1)[unfolded a] tok None]
    obtain cc u3 u4 where
      c: "cache s' = cache_set (Date_now e (world s')) (cacheKeyOf tok) r (cache s)"
      and r: "r = buildResult e cc (listed (new_events s s')) u3 u4"
      by (simp, elim exE conjE)
    from r have ok: "typeBreakdownOk r"
      by (simp add: buildResult_typeBreakdownOk)
    from cache_set_all[of typeBreakdownOk, OF ok assms(2)] c ok show ?thesis
      by simp
  next
    case (Some r0)
    then obtain c where
      g: "cache_get (Date_now e (world s)) (cacheKeyOf tok) (cache s) = (Some r0, c)"
      by (cases "cache_get (Date_now e (world s)) (cacheKeyOf tok) (cache s)") (simp add: cached_def)
    from assms(1) a tok g have "r = r0" "cache s' = c"
      by (auto simp: getGitHubStats_def Let_def)
    with cache_get_all[of _ _ _ _ _ typeBreakdownOk, OF g assms(2)] show ?thesis
      by simp
  qed
  then show ?thesis
    by (simp add: typeBreakdownOk_def)
qed

theorem type_breakdown_matches_totals_witness:
  "getGitHubStats (fixture_env fixture_calendar fixture_pages) (Str ''t'') fixture_state
     = Some (Inr fixture_report, fixture_final)
   \<and> list_all (\<lambda>entry. typeBreakdownOk (fst (snd entry))) (cache fixture_state)
   \<and> contributionsByType fixture_report = [(''Commits'', 5), (''Comments'', 1), (''Reviews'', 2)]
   \<and> totalCommits fixture_report = 5 \<and> totalComments fixture_report = 1
   \<and> totalReviews fixture_report = 2"
proof -
  have inv: "list_all (\<lambda>entry. typeBreakdownOk (fst (snd entry))) (cache fixture_state)"
    by (simp add: fixture_state_def)
  note c9 = type_breakdown_matches_totals[OF fixture_run inv]
  have "contributionsByType fixture_report =
     [(''Commits'', totalCommits fixture_report), (''Comments'', totalComments fixture_report),
      (''Reviews'', totalReviews fixture_report)]"
    using c9 by (elim conjE)
  moreover have "totalCommits fixture_report = 5" "totalComments fixture_report = 1"
    "totalReviews fixture_report = 2"
    by (simp_all add: fixture_report_def)
  ultimately show ?thesis
    using fixture_run inv by simp
qed

text \<open>
  C10. In a successful cache-miss run, let the calendar be the one the contributions
  query of the run returned. The report has the seven buckets Monday to Sunday, in this
  order, and the count of each bucket is the sum of the contribution counts of the days
  with a positive count whose date the formatter gives the name of that bucket: every
  such day is counted in that bucket and in no other, and a day with count 0 adds
  nothing. When the formatter gives one of the seven names for the date of every day
  with a positive count (as it does for every valid date), the seven counts add up to
  the sum of the contribution counts of all days of the calendar.
\<close>

theorem weekday_buckets_preserve_total:
  assumes "getGitHubStats e (Str tok) s = Some (Inr r, s')"
    and "cached e tok s = None"
    and "cc \<in> set (calendars (new_events s s'))"
  shows "contributionsByDay r =
           map (\<lambda>d. (d, sum_list (map contributionCount
                           (filter (\<lambda>day. 0 < contributionCount day
                                        \<and> toLocaleWeekday e (date day) = d)
                              (concat (weeks cc))))))
             daysOrder
     \<and> daysOrder = [''Monday'', ''Tuesday'', ''Wednesday'', ''Thursday'', ''Friday'',
                     ''Saturday'', ''Sunday'']
     \<and> ((\<forall>day \<in> set (concat (weeks cc)).
            0 < contributionCount day \<longrightarrow> toLocaleWeekday e (date day) \<in> set daysOrder) \<longrightarrow>
          sum_list (map snd (contributionsByDay r))
            = sum_list (map contributionCount (concat (weeks cc))))"
proof -
  from getGitHubStats_miss[OF assms(1) success_token[OF assms(1)] assms(2)]
  obtain cc' u3 u4 where
    c: "calendars (new_events s s') = [cc']"
    and r: "r = buildResult e cc' (listed (new_events s s')) u3 u4"
    by (simp, elim exE conjE)
  from c assms(3) have "cc' = cc" by simp
  with r have by_day: "contributionsByDay r = contributionsByDayOf (fst (processCalendar e (weeks cc)))"
    by (simp add: buildResult_fields)
  have buckets: "contributionsByDay r =
           map (\<lambda>d. (d, sum_list (map contributionCount
                           (filter (\<lambda>day. 0 < contributionCount day
                                        \<and> toLocaleWeekday e (date day) = d)
                              (concat (weeks cc))))))
             daysOrder"
    unfolding by_day by (simp add: contributionsByDayOf_def processCalendar_bucket)
  have total: "sum_list (map snd (contributionsByDay r))
            = sum_list (map contributionCount (concat (weeks cc)))"
    if "\<forall>day \<in> set (concat (weeks cc)).
            0 < contributionCount day \<longrightarrow> toLocaleWeekday e (date day) \<in> set daysOrder"
    unfolding by_day
    by (simp add: contributionsByDayOf_total processCalendar_total[OF that])
  show ?thesis
    by (intro conjI impI buckets total) (simp_all add: daysOrder_def)
qed

theorem weekday_buckets_preserve_total_witness:
  "getGitHubStats (fixture_env fixture_calendar fixture_pages) (Str ''t'') fixture_state
     = Some (Inr fixture_report, fixture_final)
   \<and> cached (fixture_env fixture_calendar fixture_pages) ''t'' fixture_state = None
   \<and> fixture_calendar \<in> set (calendars (new_events fixture_state fixture_final))
   \<and> contributionsByDay fixture_report =
       [(''Monday'', 5), (''Tuesday'', 4), (''Wednesday'', 0), (''Thursday'', 0),
        (''Friday'', 0), (''Saturday'', 0), (''Sunday'', 0)]
   \<and> sum_list (map snd (contributionsByDay fixture_report)) = 9
   \<and> sum_list (map contributionCount (concat (weeks fixture_calendar))) = 9"
proof -
  let ?e = "fixture_env fixture_calendar fixture_pages"
  have cal: "fixture_calendar \<in> set (calendars (new_events fixture_state fixture_final))"
    by (simp add: fixture_new_events)
  have days: "\<forall>day \<in> set (concat (weeks fixture_calendar)).
           0 < contributionCount day \<longrightarrow> toLocaleWeekday ?e (date day) \<in> set daysOrder"
    by (simp add: fixture_calendar_def fixture_env_sel fixture_weekday_def daysOrder_def)
  note c10 = weekday_buckets_preserve_total[OF fixture_run fixture_miss cal]
  have "contributionsByDay fixture_report =
           map (\<lambda>d. (d, sum_list (map contributionCount
                           (filter (\<lambda>day. 0 < contributionCount day
                                        \<and> toLocaleWeekday ?e (date day) = d)
                              (concat (weeks fixture_calendar))))))
             daysOrder"
    using c10 by (elim conjE)
  then have buckets: "contributionsByDay fixture_report =
       [(''Monday'', 5), (''Tuesday'', 4), (''Wednesday'', 0), (''Thursday'', 0),
        (''Friday'', 0), (''Saturday'', 0), (''Sunday'', 0)]"
    by (simp add: fixture_calendar_def fixture_env_sel fixture_weekday_def daysOrder_def)
  have "(\<forall>day \<in> set (concat (weeks fixture_calendar)).
            0 < contributionCount day \<longrightarrow> toLocaleWeekday ?e (date day) \<in> set daysOrder) \<longrightarrow>
          sum_list (map snd (contributionsByDay fixture_report))
            = sum_list (map contributionCount (concat (weeks fixture_calendar)))"
    using c10 by (elim conjE)
  with days have "sum_list (map snd (contributionsByDay fixture_report))
            = sum_list (map contributionCount (concat (weeks fixture_calendar)))"
    by (elim impE)
  moreover have "sum_list (map contributionCount (concat (weeks fixture_calendar))) = 9"
    by (simp add: fixture_calendar_def)
  ultimately have "sum_list (map snd (contributionsByDay fixture_report)) = 9
     \<and> sum_list (map contributionCount (concat (weeks fixture_calendar))) = 9"
    by simp
  with fixture_run fixture_miss cal buckets show ?thesis
    by (intro conjI) (elim conjE, assumption)+
qed

end
